theory Spec2Isabelle
  imports Complex_Main "HOL-Library.Product_Lexorder"
begin

section \<open>Floating-point values\<close>

text \<open>
  The analytic code of \<^verbatim>\<open>forecasting.py\<close> computes on pandas columns of 64-bit floats.
  A float is modelled as an exact real number or one of the three special values of
  IEEE 754; sums, differences, products, quotients and square roots of finite values are
  exact (no rounding error), and the special values propagate as IEEE 754 prescribes.
  Zero is the positive zero, which is the only zero an integer count converts to.
  Rounding to decimal places is the exception: there the binary representation decides
  which way a value goes, and it is modelled on the double nearest to the value.
\<close>

datatype fval = Fin real | PInf | NInf | NaN

fun fneg :: "fval \<Rightarrow> fval" where
  "fneg (Fin a) = Fin (- a)"
| "fneg PInf = NInf"
| "fneg NInf = PInf"
| "fneg NaN = NaN"

fun fadd :: "fval \<Rightarrow> fval \<Rightarrow> fval" where
  "fadd (Fin a) (Fin b) = Fin (a + b)"
| "fadd NaN _ = NaN"
| "fadd _ NaN = NaN"
| "fadd PInf NInf = NaN"
| "fadd NInf PInf = NaN"
| "fadd PInf _ = PInf"
| "fadd _ PInf = PInf"
| "fadd NInf _ = NInf"
| "fadd _ NInf = NInf"

definition fsub :: "fval \<Rightarrow> fval \<Rightarrow> fval" where
  "fsub a b = fadd a (fneg b)"

fun fmul :: "fval \<Rightarrow> fval \<Rightarrow> fval" where
  "fmul (Fin a) (Fin b) = Fin (a * b)"
| "fmul NaN _ = NaN"
| "fmul _ NaN = NaN"
| "fmul PInf (Fin b) = (if b = 0 then NaN else if 0 < b then PInf else NInf)"
| "fmul NInf (Fin b) = (if b = 0 then NaN else if 0 < b then NInf else PInf)"
| "fmul (Fin a) PInf = (if a = 0 then NaN else if 0 < a then PInf else NInf)"
| "fmul (Fin a) NInf = (if a = 0 then NaN else if 0 < a then NInf else PInf)"
| "fmul PInf PInf = PInf"
| "fmul PInf NInf = NInf"
| "fmul NInf PInf = NInf"
| "fmul NInf NInf = PInf"

text \<open>Division by zero does not raise on a pandas column: it yields an infinity or NaN.\<close>

fun fdiv :: "fval \<Rightarrow> fval \<Rightarrow> fval" where
  "fdiv (Fin a) (Fin b) =
     (if b \<noteq> 0 then Fin (a / b)
      else if 0 < a then PInf else if a < 0 then NInf else NaN)"
| "fdiv NaN _ = NaN"
| "fdiv _ NaN = NaN"
| "fdiv (Fin a) _ = Fin 0"
| "fdiv PInf (Fin b) = (if 0 \<le> b then PInf else NInf)"
| "fdiv NInf (Fin b) = (if 0 \<le> b then NInf else PInf)"
| "fdiv _ _ = NaN"

fun fabs :: "fval \<Rightarrow> fval" where
  "fabs (Fin a) = Fin \<bar>a\<bar>"
| "fabs PInf = PInf"
| "fabs NInf = PInf"
| "fabs NaN = NaN"

text \<open>Every comparison with NaN is false.\<close>

fun fgt :: "fval \<Rightarrow> fval \<Rightarrow> bool" where
  "fgt (Fin a) (Fin b) = (b < a)"
| "fgt NaN _ = False"
| "fgt _ NaN = False"
| "fgt PInf PInf = False"
| "fgt PInf _ = True"
| "fgt _ PInf = False"
| "fgt NInf _ = False"
| "fgt (Fin a) NInf = True"

definition fle :: "fval \<Rightarrow> fval \<Rightarrow> bool" where
  "fle a b = (a \<noteq> NaN \<and> b \<noteq> NaN \<and> \<not> fgt a b)"

text \<open>Rounding to the nearest integer, with ties going to the even one.\<close>

definition rint :: "real \<Rightarrow> int" where
  "rint x =
     (let f = \<lfloor>x\<rfloor>; d = x - of_int f
      in if d < 1 / 2 then f else if 1 / 2 < d then f + 1
         else if even f then f else f + 1)"

text \<open>
  The double nearest to a real number: 53 significant bits, ties going to the even
  significand, the exponent not below that of the smallest normal double. A result of
  magnitude \<open>2 ^ 1024\<close> is beyond the largest double and becomes an infinity.
\<close>

definition bexp :: "real \<Rightarrow> int" where
  "bexp x = max \<lfloor>log 2 \<bar>x\<bar>\<rfloor> (- 1022)"

definition dbl :: "real \<Rightarrow> real" where
  "dbl x =
     (if x = 0 then 0
      else of_int (rint (x / 2 powi (bexp x - 52))) * 2 powi (bexp x - 52))"

definition fl :: "real \<Rightarrow> fval" where
  "fl x =
     (let r = dbl x
      in if 2 ^ 1024 \<le> r then PInf else if r \<le> - (2 ^ 1024) then NInf else Fin r)"

text \<open>
  \<^verbatim>\<open>round(x, n)\<close> on a numpy float multiplies the double \<open>x\<close> by \<open>10 ^ n\<close>, rounds the
  product, which is a double again, to the nearest integer \<open>k\<close> with ties going to the even
  one, and divides by \<open>10 ^ n\<close>; NaN and the infinities are returned as they are. The
  result is given as the decimal \<open>k / 10 ^ n\<close> that the returned double is nearest to.
\<close>

fun round_nd :: "fval \<Rightarrow> nat \<Rightarrow> fval" where
  "round_nd (Fin x) n =
     (case fl x of
        Fin a \<Rightarrow> (case fl (a * 10 ^ n) of Fin s \<Rightarrow> Fin (of_int (rint s) / 10 ^ n) | v \<Rightarrow> v)
      | v \<Rightarrow> v)"
| "round_nd v n = v"

declare round_nd.simps(1) [simp del]

text \<open>
  The counts are 64-bit integers, and \<^verbatim>\<open>sum()\<close> of an integer column is a 64-bit
  integer: a sum beyond the range wraps around.
\<close>

definition int64 :: "int \<Rightarrow> int" where
  "int64 v = (v + 2 ^ 63) mod 2 ^ 64 - 2 ^ 63"

section \<open>Outcomes of a call\<close>

text \<open>A call either returns a value or raises an exception, named by its class.\<close>

datatype 'a outcome = Returned 'a | Raised string

fun obind :: "'a outcome \<Rightarrow> ('a \<Rightarrow> 'b outcome) \<Rightarrow> 'b outcome" where
  "obind (Returned v) k = k v"
| "obind (Raised e) k = Raised e"

section \<open>Data frames\<close>

text \<open>
  The adverse-event frame built by \<^verbatim>\<open>fetch_fda_adverse_events\<close> has the columns \<^verbatim>\<open>ds\<close>
  (quarter-end dates) and \<^verbatim>\<open>y\<close> (integer report counts) and the default index
  \<open>0, 1, 2, \<dots>\<close>, so a row's label is its position. The detectors assign six further
  columns to it; a column that has not been assigned is \<open>None\<close>. A date is a triple
  (year, month, day), ordered lexicographically. \<^verbatim>\<open>pd.DataFrame()\<close> is the frame with no
  rows and no assigned column.
\<close>

type_synonym date = "nat \<times> nat \<times> nat"

record frame =
  c_ds :: "date list"
  c_y :: "int list"
  c_mean :: "fval list option"
  c_std :: "fval list option"
  c_z_score :: "fval list option"
  c_is_anomaly :: "bool list option"
  c_pct_change :: "fval list option"
  c_abs_change :: "fval list option"

definition DataFrame :: frame where
  "DataFrame = \<lparr>c_ds = [], c_y = [], c_mean = None, c_std = None, c_z_score = None,
     c_is_anomaly = None, c_pct_change = None, c_abs_change = None\<rparr>"

definition len :: "frame \<Rightarrow> nat" where
  "len df = length (c_ds df)"

definition empty :: "frame \<Rightarrow> bool" where
  "empty df = (len df = 0)"

text \<open>In a frame all columns have the same number of rows.\<close>

definition col_ok :: "nat \<Rightarrow> 'a list option \<Rightarrow> bool" where
  "col_ok n c = (case c of None \<Rightarrow> True | Some xs \<Rightarrow> length xs = n)"

definition wf_frame :: "frame \<Rightarrow> bool" where
  "wf_frame df =
     (length (c_y df) = len df \<and> col_ok (len df) (c_mean df) \<and> col_ok (len df) (c_std df) \<and>
      col_ok (len df) (c_z_score df) \<and> col_ok (len df) (c_is_anomaly df) \<and>
      col_ok (len df) (c_pct_change df) \<and> col_ok (len df) (c_abs_change df))"

text \<open>\<^verbatim>\<open>df[keep]\<close> with a boolean column \<open>keep\<close> retains the rows where it is true.\<close>

definition pick :: "bool list \<Rightarrow> 'a list \<Rightarrow> 'a list" where
  "pick keep xs = map fst (filter snd (zip xs keep))"

definition select :: "frame \<Rightarrow> bool list \<Rightarrow> frame" where
  "select df keep =
     \<lparr>c_ds = pick keep (c_ds df), c_y = pick keep (c_y df),
      c_mean = map_option (pick keep) (c_mean df),
      c_std = map_option (pick keep) (c_std df),
      c_z_score = map_option (pick keep) (c_z_score df),
      c_is_anomaly = map_option (pick keep) (c_is_anomaly df),
      c_pct_change = map_option (pick keep) (c_pct_change df),
      c_abs_change = map_option (pick keep) (c_abs_change df)\<rparr>"

section \<open>Series operations of pandas\<close>

definition to_float :: "int list \<Rightarrow> fval list" where
  "to_float ys = map (\<lambda>v. Fin (real_of_int v)) ys"

text \<open>\<^verbatim>\<open>shift(1)\<close> moves every value one row down and fills the first row with NaN.\<close>

definition shift1 :: "fval list \<Rightarrow> fval list" where
  "shift1 xs = (if xs = [] then [] else NaN # butlast xs)"

text \<open>\<^verbatim>\<open>pct_change()\<close> is \<^verbatim>\<open>s / s.shift(1) - 1\<close> and \<^verbatim>\<open>diff()\<close> is \<^verbatim>\<open>s - s.shift(1)\<close>.\<close>

definition pct_change :: "fval list \<Rightarrow> fval list" where
  "pct_change xs = map2 (\<lambda>a b. fsub (fdiv a b) (Fin 1)) xs (shift1 xs)"

definition diff :: "fval list \<Rightarrow> fval list" where
  "diff xs = map2 fsub xs (shift1 xs)"

text \<open>
  \<^verbatim>\<open>mean()\<close> of no values is NaN. \<^verbatim>\<open>std()\<close> is the sample standard deviation (divisor
  \<open>n - 1\<close>), which is NaN for fewer than two values.
\<close>

definition series_mean :: "int list \<Rightarrow> fval" where
  "series_mean xs =
     (if xs = [] then NaN else Fin (real_of_int (sum_list xs) / real (length xs)))"

definition series_std :: "int list \<Rightarrow> fval" where
  "series_std xs =
     (if length xs < 2 then NaN
      else
        let m = real_of_int (sum_list xs) / real (length xs)
        in Fin (sqrt (sum_list (map (\<lambda>x. (real_of_int x - m)\<^sup>2) xs) / (real (length xs) - 1))))"

fun series_max :: "'a::linorder list \<Rightarrow> 'a option" where
  "series_max [] = None"
| "series_max (x # xs) = Some (fold max xs x)"

fun series_min :: "'a::linorder list \<Rightarrow> 'a option" where
  "series_min [] = None"
| "series_min (x # xs) = Some (fold min xs x)"

text \<open>\<^verbatim>\<open>idxmax()\<close> is the label of the first row holding the maximum.\<close>

definition idxmax :: "int list \<Rightarrow> nat outcome" where
  "idxmax ys =
     (case series_max ys of
        None \<Rightarrow> Raised ''ValueError''
      | Some m \<Rightarrow> Returned (length (takeWhile (\<lambda>v. v \<noteq> m) ys)))"

definition loc :: "'a list \<Rightarrow> nat \<Rightarrow> 'a outcome" where
  "loc xs i = (if i < length xs then Returned (xs ! i) else Raised ''KeyError'')"

text \<open>\<^verbatim>\<open>iloc[i]\<close> reads by position; a negative position counts from the end.\<close>

definition iloc :: "'a list \<Rightarrow> int \<Rightarrow> 'a outcome" where
  "iloc xs i =
     (if 0 \<le> i \<and> i < int (length xs) then Returned (xs ! nat i)
      else if i < 0 \<and> - int (length xs) \<le> i then Returned (xs ! nat (int (length xs) + i))
      else Raised ''IndexError'')"

definition tail :: "nat \<Rightarrow> 'a list \<Rightarrow> 'a list" where
  "tail n xs = drop (length xs - n) xs"

text \<open>
  \<^verbatim>\<open>rolling(window=w, min_periods=m)\<close> aggregates, at row \<open>i\<close>, the last \<open>w\<close> rows up to
  and including \<open>i\<close> (fewer at the start of the series), and gives NaN where the window
  holds fewer than \<open>m\<close> rows.
\<close>

definition window :: "nat \<Rightarrow> nat \<Rightarrow> 'a list \<Rightarrow> 'a list" where
  "window w i xs = drop (Suc i - w) (take (Suc i) xs)"

definition rolling :: "nat \<Rightarrow> nat \<Rightarrow> (int list \<Rightarrow> fval) \<Rightarrow> int list \<Rightarrow> fval list" where
  "rolling w min_periods agg xs =
     map (\<lambda>i. let win = window w i xs
               in if length win < min_periods then NaN else agg win) [0..<length xs]"

section \<open>forecasting.py\<close>

record config =
  prophet_changepoint_prior :: real
  forecast_horizon_quarters :: int
  anomaly_threshold :: fval
  min_reports_for_signal :: int

text \<open>
  The forecast frame holds one row per period with the columns read by the summary.
  Fitting and predicting belong to the Prophet library: \<open>fit\<close> and \<open>predict\<close> are
  parameters, each of which may return or raise.
\<close>

record fpoint =
  f_ds :: date
  yhat :: fval
  yhat_lower :: fval
  yhat_upper :: fval

definition train_prophet_model ::
    "(real \<Rightarrow> frame \<Rightarrow> 'm outcome) \<Rightarrow> frame \<Rightarrow> config \<Rightarrow> 'm option outcome" where
  "train_prophet_model fit df cfg =
     (if empty df \<or> len df < 2 then Returned None
      else obind (fit (prophet_changepoint_prior cfg) df) (\<lambda>model. Returned (Some model)))"

definition generate_forecast ::
    "('m \<Rightarrow> int \<Rightarrow> fpoint list outcome) \<Rightarrow> 'm option \<Rightarrow> int \<Rightarrow> fpoint list outcome" where
  "generate_forecast predict model periods =
     (case model of None \<Rightarrow> Returned [] | Some m \<Rightarrow> predict m periods)"

text \<open>
  Both detectors assign columns to the frame they are given, which is the caller's
  object, and return a filtered copy. The model returns the pair of the copy and the
  caller's frame after the call.
\<close>

definition detect_anomalies :: "frame \<Rightarrow> fval \<Rightarrow> frame \<times> frame" where
  "detect_anomalies df threshold =
     (if empty df \<or> len df < 3 then (DataFrame, df)
      else
        let mn = rolling 4 1 series_mean (c_y df);
            df1 = df\<lparr>c_mean := Some mn\<rparr>;
            sd = rolling 4 1 series_std (c_y df1);
            df2 = df1\<lparr>c_std := Some sd\<rparr>;
            z = map2 fdiv (map2 fsub (to_float (c_y df2)) mn)
                  (map (\<lambda>s. fadd s (Fin (1 / 10 ^ 10))) sd);
            df3 = df2\<lparr>c_z_score := Some z\<rparr>;
            flags = map (\<lambda>v. fgt (fabs v) threshold) z;
            df4 = df3\<lparr>c_is_anomaly := Some flags\<rparr>
        in (select df4 flags, df4))"

definition detect_safety_signals :: "frame \<Rightarrow> int \<Rightarrow> frame \<times> frame" where
  "detect_safety_signals df min_reports =
     (if empty df \<or> len df < 2 then (DataFrame, df)
      else
        let pc = map (\<lambda>v. fmul v (Fin 100)) (pct_change (to_float (c_y df)));
            df1 = df\<lparr>c_pct_change := Some pc\<rparr>;
            ac = diff (to_float (c_y df1));
            df2 = df1\<lparr>c_abs_change := Some ac\<rparr>;
            keep = map2 (\<lambda>a p. fgt a (Fin (real_of_int min_reports)) \<and> fgt p (Fin 50)) ac pc
        in (select df2 keep, df2))"

record comparison_row =
  drug :: string
  total_reports :: int
  recent_avg_quarterly :: fval
  peak_quarter :: "date option"
  peak_reports :: int

text \<open>One pass of the loop body of \<^verbatim>\<open>compare_drug_trends\<close>, for a frame that is not empty.\<close>

definition compare_row :: "string \<Rightarrow> frame \<Rightarrow> comparison_row outcome" where
  "compare_row name df =
     (let recent_trend =
            (if 4 \<le> len df then series_mean (tail 4 (c_y df)) else series_mean (c_y df));
          total = int64 (sum_list (c_y df))
      in obind (idxmax (c_y df)) (\<lambda>i.
         obind (loc (c_ds df) i) (\<lambda>pq.
         obind (case series_max (c_y df) of
                  None \<Rightarrow> Raised ''ValueError'' | Some m \<Rightarrow> Returned m) (\<lambda>pk.
         Returned \<lparr>drug = name, total_reports = total,
           recent_avg_quarterly = round_nd recent_trend 1,
           peak_quarter = (if \<not> empty df then Some pq else None),
           peak_reports = (if \<not> empty df then pk else 0)\<rparr>))))"

fun compare_drug_trends :: "(string \<times> frame) list \<Rightarrow> comparison_row list outcome" where
  "compare_drug_trends [] = Returned []"
| "compare_drug_trends ((name, df) # rest) =
     (if empty df then compare_drug_trends rest
      else obind (compare_row name df) (\<lambda>row.
           obind (compare_drug_trends rest) (\<lambda>rows. Returned (row # rows))))"

text \<open>
  The summary is a dictionary in insertion order. \<^verbatim>\<open>strftime('%Y-%m-%d')\<close> renders a date
  as four digits of the year, two of the month and two of the day, joined by hyphens
  (pandas timestamps have four-digit years).
\<close>

datatype dval = IntV int | FloatV fval | StrV string | NoneV

type_synonym digest = "(string \<times> dval) list"

definition digit :: "nat \<Rightarrow> char" where
  "digit n = ''0123456789'' ! (n mod 10)"

definition strftime :: "date \<Rightarrow> string" where
  "strftime d =
     (case d of (yr, mo, dy) \<Rightarrow>
        [digit (yr div 1000), digit (yr div 100), digit (yr div 10), digit yr] @ ''-'' @
        [digit (mo div 10), digit mo] @ ''-'' @ [digit (dy div 10), digit dy])"

definition generate_summary_stats :: "frame \<Rightarrow> fpoint list \<Rightarrow> digest outcome" where
  "generate_summary_stats df forecast =
     (if empty df then Returned []
      else
        obind (iloc (c_y df) (- 1)) (\<lambda>lastv.
        obind (iloc (c_y df) 0) (\<lambda>firstv.
        obind (case series_min (c_ds df) of
                 None \<Rightarrow> Raised ''ValueError'' | Some d \<Rightarrow> Returned d) (\<lambda>dmin.
        obind (case series_max (c_ds df) of
                 None \<Rightarrow> Raised ''ValueError'' | Some d \<Rightarrow> Returned d) (\<lambda>dmax.
        let stats =
              [(''total_reports'', IntV (int64 (sum_list (c_y df)))),
               (''avg_quarterly_reports'', FloatV (round_nd (series_mean (c_y df)) 2)),
               (''std_quarterly_reports'', FloatV (round_nd (series_std (c_y df)) 2)),
               (''trend'', StrV (if firstv < lastv then ''increasing'' else ''decreasing'')),
               (''recent_quarter_reports'', (if \<not> empty df then IntV lastv else IntV 0)),
               (''data_start'', (if \<not> empty df then StrV (strftime dmin) else NoneV)),
               (''data_end'', (if \<not> empty df then StrV (strftime dmax) else NoneV))]
        in
          if forecast \<noteq> [] then
            (case filter (\<lambda>p. dmax < f_ds p) forecast of
               [] \<Rightarrow> Returned stats
             | p # _ \<Rightarrow>
                 Returned (stats @
                   [(''forecast_next_quarter'', FloatV (round_nd (yhat p) 1)),
                    (''forecast_upper_bound'', FloatV (round_nd (yhat_upper p) 1)),
                    (''forecast_lower_bound'', FloatV (round_nd (yhat_lower p) 1))]))
          else Returned stats)))))"

text \<open>The value stored under a key of a returned digest.\<close>

definition field :: "digest outcome \<Rightarrow> string \<Rightarrow> dval option" where
  "field r k = (case r of Returned d \<Rightarrow> map_of d k | Raised e \<Rightarrow> None)"

definition keys :: "digest outcome \<Rightarrow> string list" where
  "keys r = (case r of Returned d \<Rightarrow> map fst d | Raised e \<Rightarrow> [])"

section \<open>The monitoring pipeline\<close>

text \<open>
  The analysis steps of \<^verbatim>\<open>run_monitoring_pipeline\<close> in \<^verbatim>\<open>api_server.py\<close> (and of \<^verbatim>\<open>main\<close>
  in \<^verbatim>\<open>main.py\<close>), from the adverse-event frame to the summary. The same frame object is
  handed to every step, so each step sees the columns the earlier ones assigned.
\<close>

record result_bundle =
  b_forecast :: "fpoint list"
  b_anomalies :: frame
  b_signals :: frame
  b_summary :: digest
  b_df :: frame

definition run_monitoring_pipeline ::
    "(real \<Rightarrow> frame \<Rightarrow> 'm outcome) \<Rightarrow> ('m \<Rightarrow> int \<Rightarrow> fpoint list outcome) \<Rightarrow>
     frame \<Rightarrow> config \<Rightarrow> result_bundle option outcome" where
  "run_monitoring_pipeline fit predict df cfg =
     (if \<not> empty df then
        obind (train_prophet_model fit df cfg) (\<lambda>model.
        obind (generate_forecast predict model (forecast_horizon_quarters cfg)) (\<lambda>forecast.
        case detect_anomalies df (anomaly_threshold cfg) of (anomalies, df1) \<Rightarrow>
        case detect_safety_signals df1 (min_reports_for_signal cfg) of (signals, df2) \<Rightarrow>
        obind (generate_summary_stats df2 forecast) (\<lambda>summary.
        Returned (Some \<lparr>b_forecast = forecast, b_anomalies = anomalies,
          b_signals = signals, b_summary = summary, b_df = df2\<rparr>))))
      else Returned None)"

section \<open>The rolling statistics in the words of the specification\<close>

text \<open>
  The trailing window of period \<open>i\<close>: the periods \<open>i - 3, \<dots>, i\<close>, cut off at the start
  of the series, and the z-score of period \<open>i\<close> over it.
\<close>

definition trailing_window :: "int list \<Rightarrow> nat \<Rightarrow> int list" where
  "trailing_window ys i = map ((!) ys) [i - 3..<Suc i]"

definition z_of :: "int list \<Rightarrow> nat \<Rightarrow> fval" where
  "z_of ys i =
     fdiv (fsub (Fin (real_of_int (ys ! i))) (series_mean (trailing_window ys i)))
       (fadd (series_std (trailing_window ys i)) (Fin (1 / 10 ^ 10)))"

section \<open>Example inputs\<close>

definition q1 :: date where "q1 = (2023, 3, 31)"
definition q2 :: date where "q2 = (2023, 6, 30)"
definition q3 :: date where "q3 = (2023, 9, 30)"
definition q4 :: date where "q4 = (2023, 12, 31)"
definition q5 :: date where "q5 = (2024, 3, 31)"
definition q6 :: date where "q6 = (2024, 6, 30)"

definition series :: "date list \<Rightarrow> int list \<Rightarrow> frame" where
  "series ds ys = DataFrame\<lparr>c_ds := ds, c_y := ys\<rparr>"

text \<open>A jump of exactly 10 reports, which is 100 percent.\<close>

definition two_quarters :: frame where
  "two_quarters = series [q1, q2] [10, 20]"

text \<open>The series \<open>A\<close> of the comparator example.\<close>

definition series_A :: frame where
  "series_A = series [q1, q2, q3] [10, 20, 5]"

definition spike :: frame where
  "spike = series [q1, q2, q3, q4, q5] [4, 4, 4, 4, 100]"

definition one_quarter :: frame where
  "one_quarter = series [q1] [7]"

definition flat :: frame where
  "flat = series [q1, q2, q3] [8, 3, 8]"

definition forecast_ex :: "fpoint list" where
  "forecast_ex =
     [\<lparr>f_ds = q5, yhat = Fin 90, yhat_lower = Fin 80, yhat_upper = Fin 95\<rparr>,
      \<lparr>f_ds = q6, yhat = Fin (314 / 100), yhat_lower = Fin (25 / 100),
         yhat_upper = Fin (2236 / 100)\<rparr>]"

definition past_only :: "fpoint list" where
  "past_only = [\<lparr>f_ds = q5, yhat = Fin 90, yhat_lower = Fin 80, yhat_upper = Fin 95\<rparr>]"

text \<open>Forty quarters from 2014 on, with one report in each of the first 23.\<close>

definition quarter_end :: "nat \<Rightarrow> date" where
  "quarter_end i =
     (2014 + i div 4, 3 * (i mod 4 + 1), if i mod 4 = 0 \<or> i mod 4 = 3 then 31 else 30)"

definition sparse :: frame where
  "sparse = series (map quarter_end [0..<40]) (replicate 23 1 @ replicate 17 0)"

definition config_ex :: config where
  "config_ex = \<lparr>prophet_changepoint_prior = 5 / 100, forecast_horizon_quarters = 4,
     anomaly_threshold = Fin 2, min_reports_for_signal = 10\<rparr>"

section \<open>Basic facts\<close>

lemma fadd_NaN_right [simp]: "fadd a NaN = NaN"
  by (cases a) simp_all

lemma fdiv_NaN_right [simp]: "fdiv a NaN = NaN"
  by (cases a) simp_all

lemma fmul_NaN_right [simp]: "fmul a NaN = NaN"
  by (cases a) simp_all

lemma fgt_NaN_right [simp]: "fgt a NaN = False"
  by (cases a) simp_all

lemma int64_id: "- (2 ^ 63) \<le> v \<Longrightarrow> v < 2 ^ 63 \<Longrightarrow> int64 v = v"
  by (simp add: int64_def)

subsection \<open>The nearest double and rounding to decimal places\<close>

lemma rint_close: "\<bar>real_of_int (rint x) - x\<bar> \<le> 1 / 2"
  unfolding rint_def Let_def by (auto; linarith)

lemma rint_of_int [simp]: "rint (real_of_int m) = m"
  by (simp add: rint_def)

lemma rint_mono: "x \<le> y \<Longrightarrow> rint x \<le> rint y"
proof -
  assume xy: "x \<le> y"
  have f: "\<lfloor>x\<rfloor> \<le> \<lfloor>y\<rfloor>"
    using xy by (rule floor_mono)
  show ?thesis
  proof (cases "\<lfloor>x\<rfloor> = \<lfloor>y\<rfloor>")
    case True
    with xy show ?thesis
      unfolding rint_def Let_def by (auto; linarith)
  next
    case False
    with f have "\<lfloor>x\<rfloor> + 1 \<le> \<lfloor>y\<rfloor>" by simp
    moreover have "rint x \<le> \<lfloor>x\<rfloor> + 1" "\<lfloor>y\<rfloor> \<le> rint y"
      unfolding rint_def Let_def by auto
    ultimately show ?thesis by linarith
  qed
qed

lemma bexp_eq:
  assumes "2 powi e \<le> \<bar>x\<bar>" and "\<bar>x\<bar> < 2 powi (e + 1)" and "- 1022 \<le> e"
  shows "bexp x = e"
proof -
  have p: "(0::real) < 2 powi e"
    by simp
  with assms(1) have pos: "0 < \<bar>x\<bar>"
    by linarith
  have a: "(2::real) powr real_of_int e = 2 powi e"
    by (rule powr_real_of_int') simp_all
  have b: "(2::real) powr real_of_int (e + 1) = 2 powi (e + 1)"
    by (rule powr_real_of_int') simp_all
  have "\<lfloor>log 2 \<bar>x\<bar>\<rfloor> = e"
    using floor_log_eq_powr_iff [of "\<bar>x\<bar>" 2 e] pos assms(1,2) a b by simp
  with assms(3) show ?thesis by (simp add: bexp_def)
qed

lemma dbl_eq:
  assumes "2 powi e \<le> \<bar>x\<bar>" and "\<bar>x\<bar> < 2 powi (e + 1)" and "- 1022 \<le> e"
  shows "dbl x = of_int (rint (x / 2 powi (e - 52))) * 2 powi (e - 52)"
proof -
  have "(0::real) < 2 powi e"
    by simp
  with assms(1) have "0 < \<bar>x\<bar>"
    by linarith
  then have "x \<noteq> 0"
    by simp
  then show ?thesis
    by (simp add: dbl_def bexp_eq [OF assms])
qed

lemma fl_eq:
  assumes "2 powi e \<le> \<bar>x\<bar>" and "\<bar>x\<bar> < 2 powi (e + 1)" and "- 1022 \<le> e" and "e \<le> 1022"
  shows "fl x = Fin (of_int (rint (x / 2 powi (e - 52))) * 2 powi (e - 52))"
proof -
  define q :: real where "q = 2 powi (e - 52)"
  have q: "0 < q" by (simp add: q_def)
  have e1: "(2::real) powi (e + 1) = 2 ^ 53 * q"
    unfolding q_def by (simp add: power_int_diff power_int_add)
  have "\<bar>x / q\<bar> \<le> 2 ^ 53"
    using assms(2) q unfolding e1 by (simp add: abs_divide pos_divide_le_eq less_imp_le)
  then have "- (2 ^ 53) \<le> x / q" "x / q \<le> 2 ^ 53"
    by linarith+
  then have "rint (- (2 ^ 53)) \<le> rint (x / q)" "rint (x / q) \<le> rint (2 ^ 53)"
    by (simp_all add: rint_mono)
  moreover have "rint (2 ^ 53) = 2 ^ 53" "rint (- (2 ^ 53)) = - (2 ^ 53)"
    using rint_of_int [of "2 ^ 53"] rint_of_int [of "- (2 ^ 53)"] by simp_all
  ultimately have "\<bar>rint (x / q)\<bar> \<le> 2 ^ 53"
    by linarith
  then have "real_of_int \<bar>rint (x / q)\<bar> \<le> real_of_int (2 ^ 53)"
    by (simp only: of_int_le_iff)
  then have "\<bar>real_of_int (rint (x / q))\<bar> \<le> 2 ^ 53"
    by simp
  then have "\<bar>real_of_int (rint (x / q)) * q\<bar> \<le> 2 ^ 53 * q"
    using q by (simp add: abs_mult)
  also have "\<dots> = 2 powi (e + 1)"
    by (simp add: e1)
  also have "\<dots> \<le> 2 powi 1023"
    using assms(4) by (intro power_int_increasing) simp_all
  also have "\<dots> < (2::real) ^ 1024"
    by simp
  finally have b: "\<bar>real_of_int (rint (x / q)) * q\<bar> < 2 ^ 1024" .
  have "dbl x = real_of_int (rint (x / q)) * q"
    unfolding q_def by (rule dbl_eq [OF assms(1-3)])
  with b show ?thesis
    by (simp add: fl_def Let_def q_def abs_less_iff)
qed

lemma round_nd_eq:
  assumes "fl x = Fin a" and "fl (a * 10 ^ n) = Fin s"
  shows "round_nd (Fin x) n = Fin (real_of_int (rint s) / 10 ^ n)"
  using assms by (simp add: round_nd.simps)

lemma dbl_close: "\<bar>dbl x - x\<bar> \<le> \<bar>x\<bar> / 2 ^ 53 + 2 powi (- 1075)"
proof (cases "x = 0")
  case True
  then show ?thesis by (simp add: dbl_def)
next
  case False
  define q :: real where "q = 2 powi (bexp x - 52)"
  have q: "0 < q" by (simp add: q_def)
  have "dbl x - x = (real_of_int (rint (x / q)) - x / q) * q"
    using False q by (simp add: dbl_def q_def field_simps)
  then have "\<bar>dbl x - x\<bar> = \<bar>real_of_int (rint (x / q)) - x / q\<bar> * q"
    using q by (simp add: abs_mult)
  also have "\<dots> \<le> (1 / 2) * q"
    using rint_close [of "x / q"] q by (intro mult_right_mono) simp_all
  finally have h: "\<bar>dbl x - x\<bar> \<le> q / 2" by simp
  have half: "q / 2 = 2 powi (bexp x - 53)"
    unfolding q_def by (simp add: power_int_diff)
  show ?thesis
  proof (cases "- 1022 \<le> \<lfloor>log 2 \<bar>x\<bar>\<rfloor>")
    case True
    then have b: "bexp x = \<lfloor>log 2 \<bar>x\<bar>\<rfloor>"
      by (simp add: bexp_def)
    have "(2::real) powr real_of_int \<lfloor>log 2 \<bar>x\<bar>\<rfloor> = 2 powi \<lfloor>log 2 \<bar>x\<bar>\<rfloor>"
      by (rule powr_real_of_int') simp_all
    moreover have "(2::real) powr real_of_int \<lfloor>log 2 \<bar>x\<bar>\<rfloor> \<le> \<bar>x\<bar>"
      using floor_log_eq_powr_iff [of "\<bar>x\<bar>" 2 "\<lfloor>log 2 \<bar>x\<bar>\<rfloor>"] False by simp
    ultimately have "2 powi (bexp x) \<le> \<bar>x\<bar>"
      by (simp add: b)
    then have "2 powi (bexp x) / 2 ^ 53 \<le> \<bar>x\<bar> / 2 ^ 53"
      by (simp add: divide_right_mono)
    moreover have "(2::real) powi (bexp x - 53) = 2 powi (bexp x) / 2 ^ 53"
      by (simp add: power_int_diff)
    moreover have "(0::real) \<le> 2 powi (- 1075)"
      by simp
    ultimately show ?thesis
      using h half by linarith
  next
    case False
    then have "bexp x = - 1022"
      by (simp add: bexp_def)
    then have "q / 2 = 2 powi (- 1075)"
      by (simp add: half)
    moreover have "0 \<le> \<bar>x\<bar> / 2 ^ 53"
      by simp
    ultimately show ?thesis
      using h by linarith
  qed
qed

lemma fl_Fin: "fl x = Fin a \<Longrightarrow> a = dbl x"
  by (simp add: fl_def Let_def split: if_splits)

lemma round_nd_close:
  assumes "round_nd (Fin x) n = Fin r"
  shows "\<exists>k. r = real_of_int k / 10 ^ n \<and>
           \<bar>r - x\<bar> \<le> 1 / (2 * 10 ^ n) + \<bar>x\<bar> / 2 ^ 51 + 2 powi (- 1073)"
proof -
  from assms obtain a s where a: "fl x = Fin a" and s: "fl (a * 10 ^ n) = Fin s"
    and r: "r = real_of_int (rint s) / 10 ^ n"
    by (auto simp: round_nd.simps split: fval.splits)
  define d :: real where "d = 2 powi (- 1075)"
  define t :: real where "t = 10 ^ n"
  have t: "1 \<le> t" by (simp add: t_def)
  have d: "0 \<le> d" by (simp add: d_def)
  have a': "\<bar>a - x\<bar> \<le> \<bar>x\<bar> / 2 ^ 53 + d"
    using dbl_close [of x] fl_Fin [OF a] by (simp add: d_def)
  have "\<bar>s - a * t\<bar> \<le> \<bar>a * t\<bar> / 2 ^ 53 + d"
    using dbl_close [of "a * t"] fl_Fin [OF s [folded t_def]] by (simp add: d_def)
  then have s': "\<bar>s / t - a\<bar> \<le> \<bar>a\<bar> / 2 ^ 53 + d / t"
  proof -
    assume h: "\<bar>s - a * t\<bar> \<le> \<bar>a * t\<bar> / 2 ^ 53 + d"
    have "s / t - a = (s - a * t) / t"
      using t by (simp add: field_simps)
    then have "\<bar>s / t - a\<bar> = \<bar>s - a * t\<bar> / t"
      using t by (simp add: abs_divide)
    also have "\<dots> \<le> (\<bar>a * t\<bar> / 2 ^ 53 + d) / t"
      using h t by (intro divide_right_mono) simp_all
    also have "\<dots> = \<bar>a\<bar> / 2 ^ 53 + d / t"
      using t by (simp add: field_simps abs_mult)
    finally show ?thesis .
  qed
  have k': "\<bar>r - s / t\<bar> \<le> 1 / (2 * t)"
  proof -
    have "r - s / t = (real_of_int (rint s) - s) / t"
      using t by (simp add: r t_def field_simps)
    then have "\<bar>r - s / t\<bar> = \<bar>real_of_int (rint s) - s\<bar> / t"
      using t by (simp add: abs_divide)
    also have "\<dots> \<le> (1 / 2) / t"
      using rint_close [of s] t by (intro divide_right_mono) simp_all
    finally show ?thesis by simp
  qed
  have dt: "d / t \<le> d"
  proof -
    have "d * 1 \<le> d * t"
      using t d by (intro mult_left_mono) simp_all
    then show ?thesis
      using t by (simp add: field_simps)
  qed
  have ax: "\<bar>a\<bar> \<le> 2 * \<bar>x\<bar> + d"
  proof -
    have "\<bar>x\<bar> / 2 ^ 53 \<le> \<bar>x\<bar>"
      by (simp add: field_simps)
    with a' show ?thesis by linarith
  qed
  have "\<bar>a\<bar> / 2 ^ 53 \<le> (2 * \<bar>x\<bar> + d) / 2 ^ 53"
    using ax by (simp add: divide_right_mono)
  also have "\<dots> \<le> \<bar>x\<bar> / 2 ^ 52 + d"
  proof -
    have "d / 2 ^ 53 \<le> d"
      using d by (simp add: field_simps)
    then show ?thesis
      by (simp add: add_divide_distrib)
  qed
  finally have a53: "\<bar>a\<bar> / 2 ^ 53 \<le> \<bar>x\<bar> / 2 ^ 52 + d" .
  have x51: "\<bar>x\<bar> / 2 ^ 52 + \<bar>x\<bar> / 2 ^ 53 \<le> \<bar>x\<bar> / 2 ^ 51"
    by (simp add: field_simps)
  have d4: "4 * d = 2 powi (- 1073)"
    unfolding d_def by (simp add: power_int_minus field_simps)
  have "\<bar>r - x\<bar> \<le> \<bar>r - s / t\<bar> + \<bar>s / t - a\<bar> + \<bar>a - x\<bar>"
    by linarith
  also have "\<dots> \<le> 1 / (2 * t) + (\<bar>a\<bar> / 2 ^ 53 + d / t) + (\<bar>x\<bar> / 2 ^ 53 + d)"
    using k' s' a' by linarith
  also have "\<dots> \<le> 1 / (2 * t) + \<bar>x\<bar> / 2 ^ 51 + 4 * d"
    using a53 dt x51 d by linarith
  finally have "\<bar>r - x\<bar> \<le> 1 / (2 * 10 ^ n) + \<bar>x\<bar> / 2 ^ 51 + 2 powi (- 1073)"
    by (simp add: d4 t_def)
  with r show ?thesis by blast
qed

text \<open>The roundings that occur in the examples.\<close>

lemma round_35_3_1: "round_nd (Fin (35 / 3)) 1 = Fin (117 / 10)"
proof -
  have a: "fl (35 / 3) = Fin (6567749456581973 / 2 ^ 49)"
    by (subst fl_eq [where e = "3"]) (simp_all add: power_int_minus rint_def)
  have s: "fl (6567749456581973 / 2 ^ 49 * 10 ^ 1) = Fin (4104843410363733 / 2 ^ 45)"
    by (subst fl_eq [where e = "6"]) (simp_all add: power_int_minus rint_def)
  show ?thesis
    using round_nd_eq [OF a s] by (simp add: rint_def)
qed

lemma round_35_3_2: "round_nd (Fin (35 / 3)) 2 = Fin (1167 / 100)"
proof -
  have a: "fl (35 / 3) = Fin (6567749456581973 / 2 ^ 49)"
    by (subst fl_eq [where e = "3"]) (simp_all add: power_int_minus rint_def)
  have s: "fl (6567749456581973 / 2 ^ 49 * 10 ^ 2) = Fin (2565527131477333 / 2 ^ 41)"
    by (subst fl_eq [where e = "10"]) (simp_all add: power_int_minus rint_def)
  show ?thesis
    using round_nd_eq [OF a s] by (simp add: rint_def)
qed

lemma round_7_2: "round_nd (Fin 7) 2 = Fin 7"
proof -
  have a: "fl 7 = Fin 7"
    by (subst fl_eq [where e = "2"]) (simp_all add: power_int_minus rint_def)
  have s: "fl (7 * 10 ^ 2) = Fin 700"
    by (subst fl_eq [where e = "9"]) (simp_all add: power_int_minus rint_def)
  show ?thesis
    using round_nd_eq [OF a s] by (simp add: rint_def)
qed

lemma round_314_1: "round_nd (Fin (314 / 100)) 1 = Fin (31 / 10)"
proof -
  have a: "fl (314 / 100) = Fin (7070651414971679 / 2 ^ 51)"
    by (subst fl_eq [where e = "1"]) (simp_all add: power_int_minus rint_def)
  have s: "fl (7070651414971679 / 2 ^ 51 * 10 ^ 1) = Fin (8838314268714599 / 2 ^ 48)"
    by (subst fl_eq [where e = "4"]) (simp_all add: power_int_minus rint_def)
  show ?thesis
    using round_nd_eq [OF a s] by (simp add: rint_def)
qed

lemma round_2236_1: "round_nd (Fin (2236 / 100)) 1 = Fin (224 / 10)"
proof -
  have a: "fl (2236 / 100) = Fin (1573445119812567 / 2 ^ 46)"
    by (subst fl_eq [where e = "4"]) (simp_all add: power_int_minus rint_def)
  have s: "fl (1573445119812567 / 2 ^ 46 * 10 ^ 1) = Fin (7867225599062835 / 2 ^ 45)"
    by (subst fl_eq [where e = "7"]) (simp_all add: power_int_minus rint_def)
  show ?thesis
    using round_nd_eq [OF a s] by (simp add: rint_def)
qed

lemma round_25_1: "round_nd (Fin (25 / 100)) 1 = Fin (2 / 10)"
proof -
  have a: "fl (25 / 100) = Fin (1 / 2 ^ 2)"
    by (subst fl_eq [where e = "- 2"]) (simp_all add: power_int_minus rint_def)
  have s: "fl (1 / 2 ^ 2 * 10 ^ 1) = Fin (5 / 2 ^ 1)"
    by (subst fl_eq [where e = "1"]) (simp_all add: power_int_minus rint_def)
  show ?thesis
    using round_nd_eq [OF a s] by (simp add: rint_def)
qed

lemma round_23_40_2: "round_nd (Fin (23 / 40)) 2 = Fin (57 / 100)"
proof -
  have a: "fl (23 / 40) = Fin (2589569785738035 / 2 ^ 52)"
    by (subst fl_eq [where e = "- 1"]) (simp_all add: power_int_minus rint_def)
  have s: "fl (2589569785738035 / 2 ^ 52 * 10 ^ 2) = Fin (8092405580431359 / 2 ^ 47)"
    by (subst fl_eq [where e = "5"]) (simp_all add: power_int_minus rint_def)
  show ?thesis
    using round_nd_eq [OF a s] by (simp add: rint_def)
qed

lemma round_116_5_2: "round_nd (Fin (116 / 5)) 2 = Fin (2320 / 100)"
proof -
  have a: "fl (116 / 5) = Fin (6530219459687219 / 2 ^ 48)"
    by (subst fl_eq [where e = "4"]) (simp_all add: power_int_minus rint_def)
  have s: "fl (6530219459687219 / 2 ^ 48 * 10 ^ 2) = Fin (2320)"
    by (subst fl_eq [where e = "11"]) (simp_all add: power_int_minus rint_def)
  show ?thesis
    using round_nd_eq [OF a s] by (simp add: rint_def)
qed

lemmas round_examples =
  round_35_3_1 [simplified] round_35_3_2 [simplified] round_7_2 [simplified]
  round_314_1 [simplified] round_2236_1 [simplified] round_25_1 [simplified]
  round_23_40_2 [simplified] round_116_5_2 [simplified]

lemma pick_nth:
  assumes "length keep = length xs"
  shows "pick keep xs = map ((!) xs) (filter ((!) keep) [0..<length xs])"
proof -
  have z: "zip xs keep = map (\<lambda>i. (xs ! i, keep ! i)) [0..<length xs]"
    using assms by (intro nth_equalityI) auto
  show ?thesis
    unfolding pick_def z by (simp add: filter_map comp_def)
qed

lemma length_shift1: "length (shift1 xs) = length xs"
  by (simp add: shift1_def)

lemma shift1_nth: "i < length xs \<Longrightarrow> shift1 xs ! i = (if i = 0 then NaN else xs ! (i - 1))"
  by (cases i) (auto simp: shift1_def nth_butlast)

lemmas example_defs =
  series_def DataFrame_def two_quarters_def series_A_def spike_def one_quarter_def flat_def
  forecast_ex_def past_only_def config_ex_def q1_def q2_def q3_def q4_def q5_def q6_def

lemmas frame_defs = len_def empty_def wf_frame_def col_ok_def select_def pick_def

section \<open>Safety signal detector\<close>

lemma signal_flag:
  "(fgt (fsub (Fin (real_of_int c)) (Fin (real_of_int p))) (Fin (real_of_int m)) \<and>
    fgt (fmul (fsub (fdiv (Fin (real_of_int c)) (Fin (real_of_int p))) (Fin 1)) (Fin 100))
      (Fin 50)) =
   (m < c - p \<and> (if p = 0 then 0 < c else 50 < 100 * real_of_int (c - p) / real_of_int p))"
proof (cases "p = 0")
  case True
  then show ?thesis by (auto simp: fsub_def)
next
  case False
  have "(real_of_int c / real_of_int p - 1) * 100 = 100 * real_of_int (c - p) / real_of_int p"
    using False by (simp add: field_simps)
  moreover have "(real_of_int m < real_of_int c - real_of_int p) = (m < c - p)"
    by linarith
  ultimately show ?thesis using False by (simp add: fsub_def)
qed

text \<open>
  C1, as the code has it. For a series of at least two quarters, the periods returned by
  the safety signal detector are, in chronological order, exactly the periods \<open>i \<ge> 1\<close>
  whose absolute change \<open>y\<^sub>i - y\<^sub>i\<^sub>-\<^sub>1\<close> is strictly greater than \<open>min_reports\<close> and whose
  percent change \<open>100 (y\<^sub>i - y\<^sub>i\<^sub>-\<^sub>1) / y\<^sub>i\<^sub>-\<^sub>1\<close> is strictly greater than 50; over a zero
  base the percent change is infinite when the count rose, so the period is flagged on
  the absolute change alone.
\<close>

theorem detect_safety_signals_flagged:
  assumes "wf_frame df" and "2 \<le> len df"
  shows "c_ds (fst (detect_safety_signals df m)) =
         map ((!) (c_ds df))
           (filter (\<lambda>i. 1 \<le> i \<and> m < c_y df ! i - c_y df ! (i - 1) \<and>
               (if c_y df ! (i - 1) = 0 then 0 < c_y df ! i
                else 50 < 100 * real_of_int (c_y df ! i - c_y df ! (i - 1))
                            / real_of_int (c_y df ! (i - 1))))
             [0..<len df])"
proof -
  define ys where "ys = to_float (c_y df)"
  define pc where "pc = map (\<lambda>v. fmul v (Fin 100)) (pct_change ys)"
  define ac where "ac = diff ys"
  define keep where
    "keep = map2 (\<lambda>a p. fgt a (Fin (real_of_int m)) \<and> fgt p (Fin 50)) ac pc"
  have n: "length ys = len df"
    using assms(1) by (simp add: ys_def to_float_def wf_frame_def)
  have lk: "length keep = length (c_ds df)"
    using n by (simp add: keep_def ac_def pc_def diff_def pct_change_def length_shift1 len_def)
  have res: "c_ds (fst (detect_safety_signals df m)) = pick keep (c_ds df)"
    using assms(2)
    by (simp add: detect_safety_signals_def empty_def Let_def select_def keep_def ac_def
        pc_def ys_def)
  have flag: "keep ! i = (1 \<le> i \<and> m < c_y df ! i - c_y df ! (i - 1) \<and>
               (if c_y df ! (i - 1) = 0 then 0 < c_y df ! i
                else 50 < 100 * real_of_int (c_y df ! i - c_y df ! (i - 1))
                            / real_of_int (c_y df ! (i - 1))))"
    if "i < len df" for i
  proof (cases "i = 0")
    case True
    then show ?thesis
      using that n
      by (simp add: keep_def ac_def pc_def diff_def pct_change_def length_shift1 shift1_nth
          fsub_def)
  next
    case False
    have yi: "ys ! i = Fin (real_of_int (c_y df ! i))"
      using that n by (simp add: ys_def to_float_def)
    have yp: "ys ! (i - 1) = Fin (real_of_int (c_y df ! (i - 1)))"
      using that n by (simp add: ys_def to_float_def)
    have "keep ! i = (fgt (fsub (ys ! i) (ys ! (i - 1))) (Fin (real_of_int m)) \<and>
        fgt (fmul (fsub (fdiv (ys ! i) (ys ! (i - 1))) (Fin 1)) (Fin 100)) (Fin 50))"
      using that n False
      by (simp add: keep_def ac_def pc_def diff_def pct_change_def length_shift1 shift1_nth)
    then show ?thesis
      using False by (simp only: yi yp signal_flag) simp
  qed
  have "filter ((!) keep) [0..<length (c_ds df)] =
        filter (\<lambda>i. 1 \<le> i \<and> m < c_y df ! i - c_y df ! (i - 1) \<and>
               (if c_y df ! (i - 1) = 0 then 0 < c_y df ! i
                else 50 < 100 * real_of_int (c_y df ! i - c_y df ! (i - 1))
                            / real_of_int (c_y df ! (i - 1)))) [0..<len df]"
    by (rule filter_cong) (auto simp: len_def flag)
  then show ?thesis
    by (simp add: res pick_nth [OF lk])
qed

text \<open>
  On the two quarters 10, 20 with \<open>min_reports = 9\<close> the second quarter is flagged: its
  absolute change 10 exceeds 9 and its percent change is 100.
\<close>

theorem detect_safety_signals_flagged_witness:
  "wf_frame two_quarters \<and> 2 \<le> len two_quarters \<and>
   c_ds (fst (detect_safety_signals two_quarters 9)) = [q2]"
proof -
  have w: "wf_frame two_quarters" and l: "2 \<le> len two_quarters"
    by (simp_all add: example_defs frame_defs)
  have "c_ds (fst (detect_safety_signals two_quarters 9)) = [q2]"
    unfolding detect_safety_signals_flagged [OF w l]
    by (simp add: example_defs frame_defs)
  with w l show ?thesis by simp
qed

text \<open>
  With \<open>min_reports = 10\<close> the same quarter has an absolute change equal to the minimum
  and a percent change of 100, and the detector returns no signal: the comparison of the
  absolute change is strict.
\<close>

theorem signal_at_minimum_counterexample:
  "c_y two_quarters = [10, 20] \<and> (10 :: int) \<le> 20 - 10 \<and> (50 :: real) < 100 * (20 - 10) / 10 \<and>
   c_ds (fst (detect_safety_signals two_quarters 10)) = []"
  by (simp add: detect_safety_signals_def example_defs frame_defs Let_def pct_change_def
      to_float_def shift1_def diff_def fsub_def)

section \<open>Anomaly detector: monotonicity in the threshold\<close>

lemmas anomaly_defs =
  detect_anomalies_def Let_def rolling_def window_def series_mean_def series_std_def
  to_float_def fsub_def

lemma fgt_mono: "fle t1 t2 \<Longrightarrow> fgt a t2 \<Longrightarrow> fgt a t1"
  by (cases a; cases t1; cases t2) (auto simp: fle_def)

lemma pick_mono:
  "list_all2 (\<lambda>b2 b1. b2 \<longrightarrow> b1) k2 k1 \<Longrightarrow>
   set (pick k2 xs) \<subseteq> set (pick k1 xs) \<and> length (pick k2 xs) \<le> length (pick k1 xs)"
proof (induction k2 k1 arbitrary: xs rule: list_all2_induct)
  case Nil
  then show ?case by (simp add: pick_def)
next
  case (Cons b2 k2 b1 k1)
  show ?case
  proof (cases xs)
    case Nil
    then show ?thesis by (simp add: pick_def)
  next
    case (Cons x xs')
    from Cons.IH [of xs'] Cons.hyps(1) show ?thesis
      unfolding Cons pick_def by auto
  qed
qed

text \<open>
  C4. Raising the threshold never adds a flagged period: for thresholds \<open>t1 \<le> t2\<close> the
  periods the anomaly detector flags at \<open>t2\<close> are among those it flags at \<open>t1\<close>, and
  there are no more of them.
\<close>

theorem detect_anomalies_monotone:
  assumes "fle t1 t2"
  shows "set (c_ds (fst (detect_anomalies df t2))) \<subseteq> set (c_ds (fst (detect_anomalies df t1))) \<and>
         len (fst (detect_anomalies df t2)) \<le> len (fst (detect_anomalies df t1))"
proof (cases "empty df \<or> len df < 3")
  case True
  then show ?thesis by (simp add: detect_anomalies_def)
next
  case False
  define z where "z = map2 fdiv (map2 fsub (to_float (c_y df)) (rolling 4 1 series_mean (c_y df)))
                  (map (\<lambda>s. fadd s (Fin (1 / 10 ^ 10))) (rolling 4 1 series_std (c_y df)))"
  have r: "c_ds (fst (detect_anomalies df t)) = pick (map (\<lambda>v. fgt (fabs v) t) z) (c_ds df)" for t
    using False by (simp add: detect_anomalies_def Let_def select_def z_def)
  have "list_all2 (\<lambda>b2 b1. b2 \<longrightarrow> b1) (map (\<lambda>v. fgt (fabs v) t2) z) (map (\<lambda>v. fgt (fabs v) t1) z)"
    using assms by (auto simp: list_all2_map1 list_all2_map2 list_all2_same intro: fgt_mono)
  from pick_mono [OF this, of "c_ds df"] show ?thesis
    by (simp add: r len_def)
qed

text \<open>
  On the series 4, 4, 4, 4, 100 the last quarter has z-score 1.5: it is flagged at the
  threshold 1.4 and not at 2.
\<close>

theorem detect_anomalies_monotone_witness:
  "fle (Fin (14 / 10)) (Fin 2) \<and>
   c_ds (fst (detect_anomalies spike (Fin 2))) = [] \<and>
   c_ds (fst (detect_anomalies spike (Fin (14 / 10)))) = [q5] \<and>
   set (c_ds (fst (detect_anomalies spike (Fin 2)))) \<subseteq> set (c_ds (fst (detect_anomalies spike (Fin (14 / 10))))) \<and>
   len (fst (detect_anomalies spike (Fin 2))) \<le> len (fst (detect_anomalies spike (Fin (14 / 10))))"
proof -
  have h: "fle (Fin (14 / 10)) (Fin 2)" by (simp add: fle_def)
  have a: "c_ds (fst (detect_anomalies spike (Fin 2))) = []"
    by (simp add: anomaly_defs example_defs frame_defs)
  have b: "c_ds (fst (detect_anomalies spike (Fin (14 / 10)))) = [q5]"
    by (simp add: anomaly_defs example_defs frame_defs)
  from h a b detect_anomalies_monotone [OF h, of spike] show ?thesis by blast
qed
section \<open>Anomaly detector: the rolling window\<close>

lemma window_trailing:
  assumes "i < length ys"
  shows "window 4 i ys = trailing_window ys i"
proof -
  have "take (Suc i) ys = map ((!) ys) [0..<Suc i]"
    using assms by (intro nth_equalityI) (auto simp del: upt_Suc)
  then have "window 4 i ys = map ((!) ys) (drop (Suc i - 4) [0..<Suc i])"
    by (simp add: window_def drop_map)
  also have "drop (Suc i - 4) [0..<Suc i] = [i - 3..<Suc i]"
    by (simp only: drop_upt) simp
  finally show ?thesis by (simp add: trailing_window_def)
qed

lemma length_trailing_window:
  "length (trailing_window ys i) = min 4 (Suc i)"
  by (auto simp: trailing_window_def)

lemma trailing_window_nonempty [simp]: "trailing_window ys i \<noteq> []"
  by (simp add: trailing_window_def)

lemma rolling_trailing:
  "rolling 4 1 agg ys = map (\<lambda>i. agg (trailing_window ys i)) [0..<length ys]"
  unfolding rolling_def
  by (rule map_cong) (auto simp: window_trailing Let_def length_trailing_window simp del: One_nat_def)

lemma z_column:
  "map2 fdiv (map2 fsub (to_float ys) (rolling 4 1 series_mean ys))
     (map (\<lambda>s. fadd s (Fin (1 / 10 ^ 10))) (rolling 4 1 series_std ys)) =
   map (z_of ys) [0..<length ys]"
  by (intro nth_equalityI) (auto simp: rolling_trailing to_float_def z_of_def simp del: One_nat_def)

lemma z_of_first: "z_of ys 0 = NaN"
  by (simp add: z_of_def trailing_window_def series_std_def)

lemma flagged_not_first: "fgt (fabs (z_of ys i)) t \<Longrightarrow> 1 \<le> i"
  by (cases i) (simp_all add: z_of_first)

text \<open>
  C5, as the code has it. For a series of at least three quarters, the rolling mean and
  the rolling standard deviation of period \<open>i\<close> are taken over the trailing window of the
  periods \<open>i - 3, \<dots>, i\<close>, which holds between one and four periods, and the z-score is
  \<open>(y\<^sub>i - mean\<^sub>i) / (std\<^sub>i + 1e-10)\<close>. The standard deviation is the sample one, which over
  the single period of the first window is NaN, not 0: the z-score of the first period
  is NaN, and the period is never flagged. The flagged periods are those \<open>i \<ge> 1\<close> with
  \<open>|z\<^sub>i| > threshold\<close>, in chronological order.
\<close>

theorem detect_anomalies_rolling:
  assumes "wf_frame df" and "3 \<le> len df"
  shows "c_mean (snd (detect_anomalies df t)) =
           Some (map (\<lambda>i. series_mean (trailing_window (c_y df) i)) [0..<len df]) \<and>
         c_std (snd (detect_anomalies df t)) =
           Some (map (\<lambda>i. series_std (trailing_window (c_y df) i)) [0..<len df]) \<and>
         c_z_score (snd (detect_anomalies df t)) = Some (map (z_of (c_y df)) [0..<len df]) \<and>
         (\<forall>i<len df. length (trailing_window (c_y df) i) = min 4 (Suc i)) \<and>
         series_std (trailing_window (c_y df) 0) = NaN \<and>
         z_of (c_y df) 0 = NaN \<and>
         c_ds (fst (detect_anomalies df t)) =
           map ((!) (c_ds df))
             (filter (\<lambda>i. 1 \<le> i \<and> fgt (fabs (z_of (c_y df) i)) t) [0..<len df])"
proof -
  have n: "length (c_y df) = len df"
    using assms(1) by (simp add: wf_frame_def)
  have ne: "\<not> (empty df \<or> len df < 3)"
    using assms(2) by (simp add: empty_def)
  define z where
    "z = map2 fdiv (map2 fsub (to_float (c_y df)) (rolling 4 1 series_mean (c_y df)))
           (map (\<lambda>s. fadd s (Fin (1 / 10 ^ 10))) (rolling 4 1 series_std (c_y df)))"
  define flags where "flags = map (\<lambda>v. fgt (fabs v) t) z"
  have z: "z = map (z_of (c_y df)) [0..<len df]"
    unfolding z_def z_column n ..
  have res: "c_ds (fst (detect_anomalies df t)) = pick flags (c_ds df)"
    using ne by (simp add: detect_anomalies_def Let_def select_def z_def flags_def)
  have lf: "length flags = length (c_ds df)"
    by (simp add: flags_def z len_def)
  have "filter ((!) flags) [0..<length (c_ds df)] =
        filter (\<lambda>i. 1 \<le> i \<and> fgt (fabs (z_of (c_y df) i)) t) [0..<len df]"
    by (rule filter_cong) (auto simp: len_def flags_def z dest: flagged_not_first)
  then have flagged: "c_ds (fst (detect_anomalies df t)) =
           map ((!) (c_ds df))
             (filter (\<lambda>i. 1 \<le> i \<and> fgt (fabs (z_of (c_y df) i)) t) [0..<len df])"
    by (simp add: res pick_nth [OF lf])
  have "c_z_score (snd (detect_anomalies df t)) = Some z"
    using ne by (simp add: detect_anomalies_def Let_def z_def)
  then have zcol: "c_z_score (snd (detect_anomalies df t)) = Some (map (z_of (c_y df)) [0..<len df])"
    by (simp only: z)
  have cols: "c_mean (snd (detect_anomalies df t)) =
           Some (map (\<lambda>i. series_mean (trailing_window (c_y df) i)) [0..<len df])"
     "c_std (snd (detect_anomalies df t)) =
           Some (map (\<lambda>i. series_std (trailing_window (c_y df) i)) [0..<len df])"
    using ne
    by (simp_all add: detect_anomalies_def Let_def rolling_trailing n del: One_nat_def)
  have "series_std (trailing_window (c_y df) 0) = NaN"
    by (simp add: trailing_window_def series_std_def)
  with cols zcol flagged show ?thesis
    by (simp add: length_trailing_window z_of_first)
qed

text \<open>
  On the series 4, 4, 4, 4, 100 the rolling means are 4, 4, 4, 4, 28 and the rolling
  standard deviations NaN, 0, 0, 0, 48.
\<close>

theorem detect_anomalies_rolling_witness:
  "wf_frame spike \<and> 3 \<le> len spike \<and>
   c_mean (snd (detect_anomalies spike (Fin (14 / 10)))) =
     Some [Fin 4, Fin 4, Fin 4, Fin 4, Fin 28] \<and>
   c_std (snd (detect_anomalies spike (Fin (14 / 10)))) =
     Some [NaN, Fin 0, Fin 0, Fin 0, Fin 48] \<and>
   c_ds (fst (detect_anomalies spike (Fin (14 / 10)))) = [q5]"
proof -
  have w: "wf_frame spike" and l: "3 \<le> len spike"
    by (simp_all add: example_defs frame_defs)
  have u: "[0..<5] = [0, 1, 2, 3, 4]" by (simp add: upt_rec)
  have s: "sqrt 2304 = 48"
    using real_sqrt_abs [of 48] by simp
  from detect_anomalies_rolling [OF w l, of "Fin (14 / 10)"] show ?thesis
    using w l
    apply (simp add: example_defs len_def)
    by (simp add: example_defs frame_defs trailing_window_def series_mean_def series_std_def
        u s z_of_def fsub_def)
qed

text \<open>
  On the series 10, 20, 5 the standard deviation and the z-score of the first period are
  NaN, where the claim has 0.
\<close>

theorem first_window_std_counterexample:
  "map_option hd (c_std (snd (detect_anomalies series_A (Fin 2)))) = Some NaN \<and>
   map_option hd (c_z_score (snd (detect_anomalies series_A (Fin 2)))) = Some NaN \<and>
   NaN \<noteq> Fin 0"
  by (simp add: anomaly_defs example_defs frame_defs)

section \<open>Effect of the detectors on the caller's frame\<close>

lemma length_rolling: "length (rolling w m agg ys) = length ys"
  by (simp add: rolling_def)

lemma detect_anomalies_wf:
  assumes "wf_frame df"
  shows "wf_frame (snd (detect_anomalies df t))"
proof (cases "empty df \<or> len df < 3")
  case True
  with assms show ?thesis by (simp add: detect_anomalies_def)
next
  case False
  with assms show ?thesis
    by (simp add: detect_anomalies_def Let_def wf_frame_def col_ok_def len_def length_rolling
        to_float_def)
qed

lemma detect_safety_signals_wf:
  assumes "wf_frame df"
  shows "wf_frame (snd (detect_safety_signals df m))"
proof (cases "empty df \<or> len df < 2")
  case True
  with assms show ?thesis by (simp add: detect_safety_signals_def)
next
  case False
  with assms show ?thesis
    by (simp add: detect_safety_signals_def Let_def wf_frame_def col_ok_def len_def
        to_float_def diff_def pct_change_def length_shift1)
qed

text \<open>
  C2, as the code has it. \<^verbatim>\<open>compare_drug_trends\<close> and \<^verbatim>\<open>generate_summary_stats\<close> contain no
  assignment to a frame and are functions of their arguments alone. The two detectors
  never alter the \<^verbatim>\<open>ds\<close> and \<^verbatim>\<open>y\<close> columns, and leave a frame that is too short to
  analyse as it is; on a frame of at least three (two) rows \<^verbatim>\<open>detect_anomalies\<close>
  (\<^verbatim>\<open>detect_safety_signals\<close>) assigns the columns \<^verbatim>\<open>mean\<close>, \<^verbatim>\<open>std\<close>, \<^verbatim>\<open>z_score\<close>, \<^verbatim>\<open>is_anomaly\<close>
  (\<^verbatim>\<open>pct_change\<close>, \<^verbatim>\<open>abs_change\<close>) on the caller's frame and leaves the other detector's
  columns as they were. A frame whose columns have one length stays such a frame.
\<close>

theorem detectors_frame_effect:
  "c_ds (snd (detect_anomalies df t)) = c_ds df \<and> c_y (snd (detect_anomalies df t)) = c_y df \<and>
   c_pct_change (snd (detect_anomalies df t)) = c_pct_change df \<and>
   c_abs_change (snd (detect_anomalies df t)) = c_abs_change df \<and>
   (len df < 3 \<longrightarrow> snd (detect_anomalies df t) = df) \<and>
   (3 \<le> len df \<longrightarrow>
      c_mean (snd (detect_anomalies df t)) \<noteq> None \<and> c_std (snd (detect_anomalies df t)) \<noteq> None \<and>
      c_z_score (snd (detect_anomalies df t)) \<noteq> None \<and>
      c_is_anomaly (snd (detect_anomalies df t)) \<noteq> None) \<and>
   c_ds (snd (detect_safety_signals df m)) = c_ds df \<and>
   c_y (snd (detect_safety_signals df m)) = c_y df \<and>
   c_mean (snd (detect_safety_signals df m)) = c_mean df \<and>
   c_std (snd (detect_safety_signals df m)) = c_std df \<and>
   c_z_score (snd (detect_safety_signals df m)) = c_z_score df \<and>
   c_is_anomaly (snd (detect_safety_signals df m)) = c_is_anomaly df \<and>
   (len df < 2 \<longrightarrow> snd (detect_safety_signals df m) = df) \<and>
   (2 \<le> len df \<longrightarrow>
      c_pct_change (snd (detect_safety_signals df m)) \<noteq> None \<and>
      c_abs_change (snd (detect_safety_signals df m)) \<noteq> None) \<and>
   (wf_frame df \<longrightarrow>
      wf_frame (snd (detect_anomalies df t)) \<and> wf_frame (snd (detect_safety_signals df m)))"
proof -
  have "wf_frame df \<longrightarrow>
      wf_frame (snd (detect_anomalies df t)) \<and> wf_frame (snd (detect_safety_signals df m))"
    by (simp add: detect_anomalies_wf detect_safety_signals_wf)
  then show ?thesis
    by (simp add: detect_anomalies_def detect_safety_signals_def Let_def empty_def)
qed

text \<open>
  The series 10, 20, 5 has no \<^verbatim>\<open>mean\<close> column before anomaly detection and has one after
  it; a single quarter is returned by the signal detector as it was given.
\<close>

theorem detectors_frame_effect_witness:
  "wf_frame series_A \<and> 3 \<le> len series_A \<and> len one_quarter < 2 \<and>
   c_mean series_A = None \<and> c_mean (snd (detect_anomalies series_A (Fin 2))) \<noteq> None \<and>
   c_y (snd (detect_anomalies series_A (Fin 2))) = [10, 20, 5] \<and>
   wf_frame (snd (detect_anomalies series_A (Fin 2))) \<and>
   c_abs_change series_A = None \<and>
   c_abs_change (snd (detect_safety_signals series_A 10)) \<noteq> None \<and>
   snd (detect_safety_signals one_quarter 10) = one_quarter"
proof -
  have w: "wf_frame series_A" and l: "3 \<le> len series_A" "len one_quarter < 2"
    by (simp_all add: example_defs frame_defs)
  have e: "c_mean series_A = None" "c_abs_change series_A = None" "c_y series_A = [10, 20, 5]"
    by (simp_all add: example_defs)
  from detectors_frame_effect [of series_A "Fin 2" 10]
    detectors_frame_effect [of one_quarter "Fin 2" 10]
  show ?thesis
    using w l e by simp
qed

text \<open>
  After anomaly detection the series 10, 20, 5 differs from the series passed in: it has
  a \<^verbatim>\<open>mean\<close> column. After signal detection the quarters 10, 20 have an \<^verbatim>\<open>abs_change\<close>
  column.
\<close>

theorem detect_anomalies_mutates_counterexample:
  "snd (detect_anomalies series_A (Fin 2)) \<noteq> series_A \<and>
   c_mean series_A = None \<and>
   c_mean (snd (detect_anomalies series_A (Fin 2))) = Some [Fin 10, Fin 15, Fin (35 / 3)] \<and>
   snd (detect_safety_signals two_quarters 10) \<noteq> two_quarters \<and>
   c_abs_change two_quarters = None \<and>
   c_abs_change (snd (detect_safety_signals two_quarters 10)) = Some [NaN, Fin 10]"
proof -
  have a: "c_mean (snd (detect_anomalies series_A (Fin 2))) = Some [Fin 10, Fin 15, Fin (35 / 3)]"
    by (simp add: anomaly_defs example_defs frame_defs)
  have b: "c_mean series_A = None"
    by (simp add: example_defs)
  have c: "c_abs_change (snd (detect_safety_signals two_quarters 10)) = Some [NaN, Fin 10]"
    by (simp add: detect_safety_signals_def example_defs frame_defs Let_def diff_def
        shift1_def to_float_def fsub_def)
  have d: "c_abs_change two_quarters = None"
    by (simp add: example_defs)
  from a b have "snd (detect_anomalies series_A (Fin 2)) \<noteq> series_A" by auto
  moreover from c d have "snd (detect_safety_signals two_quarters 10) \<noteq> two_quarters" by auto
  ultimately show ?thesis using a b c d by simp
qed

section \<open>The summary digest\<close>

lemma series_max_Max: "xs \<noteq> [] \<Longrightarrow> series_max xs = Some (Max (set xs))"
  using Max.set_eq_fold [of "hd xs" "tl xs"] by (cases xs) simp_all

lemma series_min_Min: "xs \<noteq> [] \<Longrightarrow> series_min xs = Some (Min (set xs))"
  using Min.set_eq_fold [of "hd xs" "tl xs"] by (cases xs) simp_all

lemma iloc_first: "xs \<noteq> [] \<Longrightarrow> iloc xs 0 = Returned (hd xs)"
  by (cases xs) (simp_all add: iloc_def)

lemma iloc_last: "xs \<noteq> [] \<Longrightarrow> iloc xs (- 1) = Returned (last xs)"
proof (cases xs)
  case Nil
  assume "xs \<noteq> []"
  with Nil show ?thesis by simp
next
  case (Cons a list)
  have "nat (int (length (a # list)) + - 1) = length list"
    by simp
  then show ?thesis
    unfolding Cons iloc_def by (simp add: last_conv_nth)
qed

lemma case_filter_find:
  "(case filter P xs of [] \<Rightarrow> a | p # _ \<Rightarrow> f p) = (case find P xs of None \<Rightarrow> a | Some p \<Rightarrow> f p)"
  by (induction xs) simp_all

lemma find_sorted_least:
  "sorted (map f xs) \<Longrightarrow> find P xs = Some p \<Longrightarrow> q \<in> set xs \<Longrightarrow> P q \<Longrightarrow> f p \<le> f q"
  by (induction xs) (auto split: if_splits)

lemma sorted_Max_last: "sorted xs \<Longrightarrow> xs \<noteq> [] \<Longrightarrow> Max (set xs) = last xs"
  by (induction xs) (auto simp: max_def intro!: antisym)

lemma summary_returned:
  assumes "wf_frame df" and "\<not> empty df"
  shows "generate_summary_stats df fc =
     Returned
       ([(''total_reports'', IntV (int64 (sum_list (c_y df)))),
         (''avg_quarterly_reports'', FloatV (round_nd (series_mean (c_y df)) 2)),
         (''std_quarterly_reports'', FloatV (round_nd (series_std (c_y df)) 2)),
         (''trend'', StrV (if hd (c_y df) < last (c_y df) then ''increasing'' else ''decreasing'')),
         (''recent_quarter_reports'', IntV (last (c_y df))),
         (''data_start'', StrV (strftime (Min (set (c_ds df))))),
         (''data_end'', StrV (strftime (Max (set (c_ds df)))))] @
        (case find (\<lambda>p. Max (set (c_ds df)) < f_ds p) fc of
           None \<Rightarrow> []
         | Some p \<Rightarrow>
             [(''forecast_next_quarter'', FloatV (round_nd (yhat p) 1)),
              (''forecast_upper_bound'', FloatV (round_nd (yhat_upper p) 1)),
              (''forecast_lower_bound'', FloatV (round_nd (yhat_lower p) 1))]))"
proof -
  have d: "c_ds df \<noteq> []" and y: "c_y df \<noteq> []"
    using assms by (auto simp: wf_frame_def empty_def len_def)
  show ?thesis
    using d y assms(2)
    by (cases fc)
      (auto simp: generate_summary_stats_def iloc_first iloc_last series_max_Max
        series_min_Min Let_def case_filter_find split: option.splits
        simp del: Max_less_iff)
qed

text \<open>
  C7. For a series that is not empty, the trend of the summary is \<open>increasing\<close> exactly
  when the count of the last period is strictly greater than the count of the first
  period, and \<open>decreasing\<close> otherwise, so also when the two counts are equal.
\<close>

theorem summary_trend:
  assumes "wf_frame df" and "\<not> empty df"
  shows "field (generate_summary_stats df fc) ''trend'' =
         Some (StrV (if hd (c_y df) < last (c_y df) then ''increasing'' else ''decreasing''))"
  unfolding summary_returned [OF assms]
  by (simp add: field_def split: option.splits)

text \<open>
  The series 8, 3, 8 starts and ends on the same count and is classified as decreasing;
  10, 20, 5 is decreasing and 4, 4, 4, 4, 100 increasing.
\<close>

theorem summary_trend_witness:
  "wf_frame flat \<and> \<not> empty flat \<and> hd (c_y flat) = last (c_y flat) \<and>
   field (generate_summary_stats flat []) ''trend'' = Some (StrV ''decreasing'') \<and>
   field (generate_summary_stats series_A []) ''trend'' = Some (StrV ''decreasing'') \<and>
   field (generate_summary_stats spike []) ''trend'' = Some (StrV ''increasing'')"
proof -
  have w: "wf_frame flat" "\<not> empty flat" "wf_frame series_A" "\<not> empty series_A"
    "wf_frame spike" "\<not> empty spike"
    by (simp_all add: example_defs frame_defs)
  show ?thesis
    using w summary_trend [OF w(1,2), of "[]"] summary_trend [OF w(3,4), of "[]"]
      summary_trend [OF w(5,6), of "[]"]
    by (simp add: example_defs)
qed

lemma find_after_last:
  assumes "sorted ds" and "ds \<noteq> []"
  shows "find (\<lambda>p. Max (set ds) < f_ds p) fc = find (\<lambda>p. last ds < f_ds p) fc"
  by (simp only: sorted_Max_last [OF assms])

text \<open>
  C8, as the code has it. For a series that is not empty, with periods in ascending
  order, and a forecast in ascending order of period, the summarizer returns a digest.
  When no forecast point lies strictly after the last period of the series, the three
  forecast fields are absent from that digest; otherwise the digest records the point
  estimate and both bounds of the first forecast point strictly after the last period,
  each rounded to one decimal place, and that point is the earliest such point.
\<close>

theorem summary_forecast_fields:
  assumes "wf_frame df" and "\<not> empty df" and "sorted (c_ds df)" and "sorted (map f_ds fc)"
  shows "\<exists>d. generate_summary_stats df fc = Returned d \<and>
           ((\<forall>p\<in>set fc. \<not> last (c_ds df) < f_ds p) \<longrightarrow>
              ''forecast_next_quarter'' \<notin> fst ` set d \<and>
              ''forecast_upper_bound'' \<notin> fst ` set d \<and>
              ''forecast_lower_bound'' \<notin> fst ` set d) \<and>
           (\<forall>p. find (\<lambda>p. last (c_ds df) < f_ds p) fc = Some p \<longrightarrow>
              map_of d ''forecast_next_quarter'' = Some (FloatV (round_nd (yhat p) 1)) \<and>
              map_of d ''forecast_upper_bound'' = Some (FloatV (round_nd (yhat_upper p) 1)) \<and>
              map_of d ''forecast_lower_bound'' = Some (FloatV (round_nd (yhat_lower p) 1)) \<and>
              p \<in> set fc \<and> last (c_ds df) < f_ds p \<and>
              (\<forall>q\<in>set fc. last (c_ds df) < f_ds q \<longrightarrow> f_ds p \<le> f_ds q))"
proof -
  have ne: "c_ds df \<noteq> []"
    using assms(2) by (auto simp: empty_def len_def)
  note fa = find_after_last [OF assms(3) ne]
  define base where
    "base =
       [(''total_reports'', IntV (int64 (sum_list (c_y df)))),
        (''avg_quarterly_reports'', FloatV (round_nd (series_mean (c_y df)) 2)),
        (''std_quarterly_reports'', FloatV (round_nd (series_std (c_y df)) 2)),
        (''trend'', StrV (if hd (c_y df) < last (c_y df) then ''increasing'' else ''decreasing'')),
        (''recent_quarter_reports'', IntV (last (c_y df))),
        (''data_start'', StrV (strftime (Min (set (c_ds df))))),
        (''data_end'', StrV (strftime (Max (set (c_ds df)))))]"
  define extra where
    "extra =
       (case find (\<lambda>p. last (c_ds df) < f_ds p) fc of
          None \<Rightarrow> []
        | Some p \<Rightarrow>
            [(''forecast_next_quarter'', FloatV (round_nd (yhat p) 1)),
             (''forecast_upper_bound'', FloatV (round_nd (yhat_upper p) 1)),
             (''forecast_lower_bound'', FloatV (round_nd (yhat_lower p) 1))])"
  have ret: "generate_summary_stats df fc = Returned (base @ extra)"
    unfolding summary_returned [OF assms(1,2)] fa base_def extra_def ..
  have absent: "''forecast_next_quarter'' \<notin> fst ` set (base @ extra) \<and>
              ''forecast_upper_bound'' \<notin> fst ` set (base @ extra) \<and>
              ''forecast_lower_bound'' \<notin> fst ` set (base @ extra)"
    if "\<forall>p\<in>set fc. \<not> last (c_ds df) < f_ds p"
  proof -
    from that have "find (\<lambda>p. last (c_ds df) < f_ds p) fc = None"
      by (simp add: find_None_iff)
    then show ?thesis
      by (simp add: base_def extra_def)
  qed
  have present: "map_of (base @ extra) ''forecast_next_quarter'' =
              Some (FloatV (round_nd (yhat p) 1)) \<and>
            map_of (base @ extra) ''forecast_upper_bound'' =
              Some (FloatV (round_nd (yhat_upper p) 1)) \<and>
            map_of (base @ extra) ''forecast_lower_bound'' =
              Some (FloatV (round_nd (yhat_lower p) 1))"
    if "find (\<lambda>p. last (c_ds df) < f_ds p) fc = Some p" for p
    using that by (simp add: base_def extra_def)
  have first: "p \<in> set fc \<and> last (c_ds df) < f_ds p \<and>
            (\<forall>q\<in>set fc. last (c_ds df) < f_ds q \<longrightarrow> f_ds p \<le> f_ds q)"
    if "find (\<lambda>p. last (c_ds df) < f_ds p) fc = Some p" for p
  proof -
    from that have "p \<in> set fc" "last (c_ds df) < f_ds p"
      by (auto simp: find_Some_iff)
    moreover have "f_ds p \<le> f_ds q" if "q \<in> set fc" "last (c_ds df) < f_ds q" for q
      using find_sorted_least [OF assms(4) \<open>find _ fc = Some p\<close> that] .
    ultimately show ?thesis by blast
  qed
  from ret absent present first show ?thesis by blast
qed

text \<open>
  For the series ending in the first quarter of 2024 and a forecast holding that quarter
  and the next, the digest records the next quarter's 3.14, 22.36 and 0.25 as 3.1, 22.4
  and 0.2; for a forecast that ends with the series, the digest is returned with its
  seven other fields only.
\<close>

theorem summary_forecast_fields_witness:
  "wf_frame spike \<and> \<not> empty spike \<and> sorted (c_ds spike) \<and> sorted (map f_ds forecast_ex) \<and>
   sorted (map f_ds past_only) \<and>
   field (generate_summary_stats spike forecast_ex) ''forecast_next_quarter'' =
     Some (FloatV (Fin (31 / 10))) \<and>
   field (generate_summary_stats spike forecast_ex) ''forecast_upper_bound'' =
     Some (FloatV (Fin (224 / 10))) \<and>
   field (generate_summary_stats spike forecast_ex) ''forecast_lower_bound'' =
     Some (FloatV (Fin (2 / 10))) \<and>
   find (\<lambda>p. last (c_ds spike) < f_ds p) past_only = None \<and>
   generate_summary_stats spike past_only =
     Returned
       [(''total_reports'', IntV 116),
        (''avg_quarterly_reports'', FloatV (Fin (232 / 10))),
        (''std_quarterly_reports'', FloatV (round_nd (series_std [4, 4, 4, 4, 100]) 2)),
        (''trend'', StrV ''increasing''),
        (''recent_quarter_reports'', IntV 100),
        (''data_start'', StrV ''2023-03-31''),
        (''data_end'', StrV ''2024-03-31'')]"
proof -
  have w: "wf_frame spike" "\<not> empty spike" "sorted (c_ds spike)"
    by (simp_all add: example_defs frame_defs)
  have s: "sorted (map f_ds forecast_ex)" "sorted (map f_ds past_only)"
    by (simp_all add: example_defs)
  have f: "find (\<lambda>p. last (c_ds spike) < f_ds p) forecast_ex =
      Some \<lparr>f_ds = q6, yhat = Fin (314 / 100), yhat_lower = Fin (25 / 100),
         yhat_upper = Fin (2236 / 100)\<rparr>"
    by (simp add: example_defs)
  have n: "\<forall>p\<in>set past_only. \<not> last (c_ds spike) < f_ds p"
    by (simp add: example_defs)
  from summary_forecast_fields [OF w s(1)] f obtain d where
    d: "generate_summary_stats spike forecast_ex = Returned d" and
    v: "map_of d ''forecast_next_quarter'' = Some (FloatV (round_nd (Fin (314 / 100)) 1))"
      "map_of d ''forecast_upper_bound'' = Some (FloatV (round_nd (Fin (2236 / 100)) 1))"
      "map_of d ''forecast_lower_bound'' = Some (FloatV (round_nd (Fin (25 / 100)) 1))"
    by fastforce
  have present: "field (generate_summary_stats spike forecast_ex) ''forecast_next_quarter'' =
     Some (FloatV (Fin (31 / 10))) \<and>
   field (generate_summary_stats spike forecast_ex) ''forecast_upper_bound'' =
     Some (FloatV (Fin (224 / 10))) \<and>
   field (generate_summary_stats spike forecast_ex) ''forecast_lower_bound'' =
     Some (FloatV (Fin (2 / 10)))"
    unfolding d field_def using v by (simp add: round_examples)
  from summary_forecast_fields [OF w s(2)] n obtain d' where
    d': "generate_summary_stats spike past_only = Returned d'" and
    a: "''forecast_next_quarter'' \<notin> fst ` set d'"
    by blast
  have "generate_summary_stats spike past_only =
     Returned
       [(''total_reports'', IntV 116),
        (''avg_quarterly_reports'', FloatV (Fin (232 / 10))),
        (''std_quarterly_reports'', FloatV (round_nd (series_std [4, 4, 4, 4, 100]) 2)),
        (''trend'', StrV ''increasing''),
        (''recent_quarter_reports'', IntV 100),
        (''data_start'', StrV ''2023-03-31''),
        (''data_end'', StrV ''2024-03-31'')]"
    by (simp add: generate_summary_stats_def example_defs frame_defs iloc_def series_mean_def
        round_examples int64_def strftime_def digit_def)
  moreover have "find (\<lambda>p. last (c_ds spike) < f_ds p) past_only = None"
    by (simp add: example_defs)
  ultimately show ?thesis
    using present w s by simp
qed

text \<open>
  The point estimate of the earliest future point is 3.14, and the digest holds 3.1.
\<close>

theorem forecast_point_rounded_counterexample:
  "find (\<lambda>p. last (c_ds spike) < f_ds p) forecast_ex =
      Some \<lparr>f_ds = q6, yhat = Fin (314 / 100), yhat_lower = Fin (25 / 100),
         yhat_upper = Fin (2236 / 100)\<rparr> \<and>
   field (generate_summary_stats spike forecast_ex) ''forecast_next_quarter'' =
     Some (FloatV (Fin (31 / 10))) \<and>
   Fin (31 / 10) \<noteq> Fin (314 / 100)"
proof -
  have w: "wf_frame spike" "\<not> empty spike"
    by (simp_all add: example_defs frame_defs)
  have m: "Max (set (c_ds spike)) = q5"
    by (simp add: example_defs)
  have f: "find (\<lambda>p. q5 < f_ds p) forecast_ex =
      Some \<lparr>f_ds = q6, yhat = Fin (314 / 100), yhat_lower = Fin (25 / 100),
         yhat_upper = Fin (2236 / 100)\<rparr>"
    by (simp add: example_defs)
  have l: "last (c_ds spike) = q5"
    by (simp add: example_defs)
  have "field (generate_summary_stats spike forecast_ex) ''forecast_next_quarter'' =
     Some (FloatV (Fin (31 / 10)))"
    unfolding summary_returned [OF w] m f
    by (simp add: field_def round_examples int64_def)
  with f l show ?thesis by simp
qed

lemma strftime_format:
  "length (strftime d) = 10 \<and> strftime d ! 4 = CHR ''-'' \<and> strftime d ! 7 = CHR ''-''"
  by (cases d) (simp add: strftime_def)

text \<open>
  C9, as the code has it. The digest of a series that is not empty has the seven keys
  \<^verbatim>\<open>total_reports\<close>, \<^verbatim>\<open>avg_quarterly_reports\<close>, \<^verbatim>\<open>std_quarterly_reports\<close>, \<^verbatim>\<open>trend\<close>,
  \<^verbatim>\<open>recent_quarter_reports\<close>, \<^verbatim>\<open>data_start\<close>, \<^verbatim>\<open>data_end\<close>, followed by the three forecast
  keys when a forecast point lies after the latest period, and no other. Its two dates
  are strings: the earliest and the latest period of the series, each rendered in the
  fixed ten-character format \<^verbatim>\<open>YYYY-MM-DD\<close>.
\<close>

theorem summary_keys_and_dates:
  assumes "wf_frame df" and "\<not> empty df"
  shows "keys (generate_summary_stats df fc) =
           [''total_reports'', ''avg_quarterly_reports'', ''std_quarterly_reports'', ''trend'',
            ''recent_quarter_reports'', ''data_start'', ''data_end''] @
           (case find (\<lambda>p. Max (set (c_ds df)) < f_ds p) fc of
              None \<Rightarrow> []
            | Some p \<Rightarrow>
                [''forecast_next_quarter'', ''forecast_upper_bound'', ''forecast_lower_bound'']) \<and>
         field (generate_summary_stats df fc) ''data_start'' =
           Some (StrV (strftime (Min (set (c_ds df))))) \<and>
         field (generate_summary_stats df fc) ''data_end'' =
           Some (StrV (strftime (Max (set (c_ds df))))) \<and>
         length (strftime (Min (set (c_ds df)))) = 10 \<and>
         length (strftime (Max (set (c_ds df)))) = 10"
  unfolding summary_returned [OF assms]
  by (simp add: field_def keys_def strftime_format split: option.splits)

text \<open>The digest of the series 10, 20, 5 over the first three quarters of 2023.\<close>

theorem summary_keys_and_dates_witness:
  "wf_frame series_A \<and> \<not> empty series_A \<and>
   keys (generate_summary_stats series_A []) =
     [''total_reports'', ''avg_quarterly_reports'', ''std_quarterly_reports'', ''trend'',
      ''recent_quarter_reports'', ''data_start'', ''data_end''] \<and>
   field (generate_summary_stats series_A []) ''data_start'' = Some (StrV ''2023-03-31'') \<and>
   field (generate_summary_stats series_A []) ''data_end'' = Some (StrV ''2023-09-30'')"
proof -
  have w: "wf_frame series_A" "\<not> empty series_A"
    by (simp_all add: example_defs frame_defs)
  have m: "Min (set (c_ds series_A)) = (2023, 3, 31)" "Max (set (c_ds series_A)) = (2023, 9, 30)"
    by (simp_all add: example_defs)
  have s: "strftime (2023, 3, 31) = ''2023-03-31''" "strftime (2023, 9, 30) = ''2023-09-30''"
    by (simp_all add: strftime_def digit_def)
  from summary_keys_and_dates [OF w, of "[]"] show ?thesis
    using w by (simp add: m s)
qed

text \<open>
  The digest of that series holds the strings \<^verbatim>\<open>2023-03-31\<close> and \<^verbatim>\<open>2023-09-30\<close> for its
  first and last period.
\<close>

theorem summary_date_string_counterexample:
  "c_ds series_A = [(2023, 3, 31), (2023, 6, 30), (2023, 9, 30)] \<and>
   generate_summary_stats series_A [] =
     Returned
       [(''total_reports'', IntV 35),
        (''avg_quarterly_reports'', FloatV (Fin (1167 / 100))),
        (''std_quarterly_reports'', FloatV (round_nd (series_std [10, 20, 5]) 2)),
        (''trend'', StrV ''decreasing''),
        (''recent_quarter_reports'', IntV 5),
        (''data_start'', StrV ''2023-03-31''),
        (''data_end'', StrV ''2023-09-30'')]"
  by (simp add: generate_summary_stats_def example_defs frame_defs iloc_def series_mean_def
      round_examples int64_def strftime_def digit_def)

section \<open>The comparator\<close>

lemma first_index:
  "m \<in> set ys \<Longrightarrow>
   length (takeWhile (\<lambda>v. v \<noteq> m) ys) < length ys \<and> ys ! length (takeWhile (\<lambda>v. v \<noteq> m) ys) = m"
  by (induction ys) auto

lemma before_first_index:
  assumes "j < length (takeWhile (\<lambda>v. v \<noteq> m) ys)"
  shows "ys ! j \<noteq> m"
proof -
  have "takeWhile (\<lambda>v. v \<noteq> m) ys ! j \<in> set (takeWhile (\<lambda>v. v \<noteq> m) ys)"
    using assms by simp
  then have "takeWhile (\<lambda>v. v \<noteq> m) ys ! j \<noteq> m"
    by (auto dest: set_takeWhileD)
  then show ?thesis
    using assms by (simp add: takeWhile_nth)
qed

lemma compare_row_returned:
  assumes "wf_frame df" and "\<not> empty df"
  shows "compare_row name df =
     Returned \<lparr>drug = name, total_reports = int64 (sum_list (c_y df)),
       recent_avg_quarterly =
         round_nd (series_mean (if 4 \<le> len df then tail 4 (c_y df) else c_y df)) 1,
       peak_quarter =
         Some (c_ds df ! length (takeWhile (\<lambda>v. v \<noteq> Max (set (c_y df))) (c_y df))),
       peak_reports = Max (set (c_y df))\<rparr>"
proof -
  have y: "c_y df \<noteq> []" and n: "length (c_y df) = length (c_ds df)"
    using assms by (auto simp: wf_frame_def empty_def len_def)
  have "Max (set (c_y df)) \<in> set (c_y df)"
    using y by simp
  from first_index [OF this] n
  have "length (takeWhile (\<lambda>v. v \<noteq> Max (set (c_y df))) (c_y df)) < length (c_ds df)"
    by simp
  then show ?thesis
    using y assms(2)
    by (simp add: compare_row_def idxmax_def loc_def series_max_Max)
qed

text \<open>
  C6, as the code has it. For a series that is not empty, the comparator returns one row
  holding the total of the counts (which is their sum as long as that fits 64 bits), the
  mean of the last four counts (of all counts when
  there are fewer than four) rounded to one decimal place, and the period and count of
  the peak, which is the earliest period holding the maximum count. For the series
  \<open>[(Q1, 10), (Q2, 20), (Q3, 5)]\<close> the peak is \<open>Q2\<close> with 20 and the recent average is
  11.7.
\<close>

theorem compare_drug_trends_row:
  assumes "wf_frame df" and "\<not> empty df"
  shows "\<exists>k<len df.
           compare_drug_trends [(name, df)] =
             Returned [\<lparr>drug = name, total_reports = int64 (sum_list (c_y df)),
               recent_avg_quarterly =
                 round_nd (series_mean (if 4 \<le> len df then tail 4 (c_y df) else c_y df)) 1,
               peak_quarter = Some (c_ds df ! k), peak_reports = c_y df ! k\<rparr>] \<and>
           (\<forall>j<len df. c_y df ! j \<le> c_y df ! k) \<and> (\<forall>j<k. c_y df ! j < c_y df ! k) \<and>
           (- (2 ^ 63) \<le> sum_list (c_y df) \<and> sum_list (c_y df) < 2 ^ 63 \<longrightarrow>
              int64 (sum_list (c_y df)) = sum_list (c_y df))"
proof -
  define k where "k = length (takeWhile (\<lambda>v. v \<noteq> Max (set (c_y df))) (c_y df))"
  have y: "c_y df \<noteq> []" and n: "length (c_y df) = len df"
    using assms by (auto simp: wf_frame_def empty_def len_def)
  have "Max (set (c_y df)) \<in> set (c_y df)"
    using y by simp
  from first_index [OF this] have k: "k < len df" and mk: "c_y df ! k = Max (set (c_y df))"
    by (simp_all add: k_def n)
  have le: "c_y df ! j \<le> c_y df ! k" if "j < len df" for j
    using that n by (simp add: mk)
  have lt: "c_y df ! j < c_y df ! k" if "j < k" for j
  proof -
    have "c_y df ! j \<noteq> c_y df ! k"
      using before_first_index [of j "Max (set (c_y df))" "c_y df"] that
      by (simp add: k_def [symmetric] mk)
    moreover have "c_y df ! j \<le> c_y df ! k"
      using le that k by simp
    ultimately show ?thesis by simp
  qed
  have "compare_drug_trends [(name, df)] =
             Returned [\<lparr>drug = name, total_reports = int64 (sum_list (c_y df)),
               recent_avg_quarterly =
                 round_nd (series_mean (if 4 \<le> len df then tail 4 (c_y df) else c_y df)) 1,
               peak_quarter = Some (c_ds df ! k), peak_reports = c_y df ! k\<rparr>]"
    using assms(2) by (simp add: compare_row_returned [OF assms] k_def [symmetric] mk)
  moreover have "- (2 ^ 63) \<le> sum_list (c_y df) \<and> sum_list (c_y df) < 2 ^ 63 \<longrightarrow>
              int64 (sum_list (c_y df)) = sum_list (c_y df)"
    by (simp add: int64_id)
  ultimately show ?thesis
    using k le lt by blast
qed

text \<open>The row of the series \<open>A\<close>.\<close>

theorem compare_drug_trends_row_witness:
  "wf_frame series_A \<and> \<not> empty series_A \<and>
   compare_drug_trends [(''A'', series_A)] =
     Returned [\<lparr>drug = ''A'', total_reports = 35, recent_avg_quarterly = Fin (117 / 10),
       peak_quarter = Some q2, peak_reports = 20\<rparr>]"
proof -
  have w: "wf_frame series_A" "\<not> empty series_A"
    by (simp_all add: example_defs frame_defs)
  from compare_drug_trends_row [OF w, of "''A''"] obtain k where
    k: "k < len series_A" and
    r: "compare_drug_trends [(''A'', series_A)] =
             Returned [\<lparr>drug = ''A'', total_reports = int64 (sum_list (c_y series_A)),
               recent_avg_quarterly =
                 round_nd (series_mean (if 4 \<le> len series_A then tail 4 (c_y series_A)
                   else c_y series_A)) 1,
               peak_quarter = Some (c_ds series_A ! k), peak_reports = c_y series_A ! k\<rparr>]" and
    m: "\<forall>j<len series_A. c_y series_A ! j \<le> c_y series_A ! k"
    by blast
  have "len series_A = 3"
    by (simp add: example_defs len_def)
  with k have "k = 0 \<or> k = 1 \<or> k = 2" by auto
  moreover from m have "c_y series_A ! 1 \<le> c_y series_A ! k"
    by (simp add: \<open>len series_A = 3\<close>)
  ultimately have "k = 1"
    by (auto simp: example_defs)
  with r w show ?thesis
    by (simp add: example_defs len_def series_mean_def round_examples int64_def)
qed

text \<open>The recent average of the series \<open>A\<close> is 11.7, which is neither 35/3 nor 11.67.\<close>

theorem recent_average_counterexample:
  "compare_drug_trends [(''A'', series_A)] =
     Returned [\<lparr>drug = ''A'', total_reports = 35, recent_avg_quarterly = Fin (117 / 10),
       peak_quarter = Some q2, peak_reports = 20\<rparr>] \<and>
   Fin (117 / 10) \<noteq> Fin (35 / 3) \<and> Fin (117 / 10) \<noteq> Fin (1167 / 100)"
  by (simp add: compare_row_def idxmax_def loc_def example_defs frame_defs series_mean_def
      round_examples int64_def)

text \<open>
  C10. For a series that is not empty, the digest holds the mean and the sample standard
  deviation of the counts rounded to two decimal places, the total as an integer, and
  the estimate and bounds of the next forecast point rounded to one decimal place; the
  comparator's row holds the recent mean rounded to one decimal place, and the total and
  the peak count as integers, the totals being the sums of the counts as long as these
  fit 64 bits. The rounding is that of the double nearest to the statistic: a finite
  result is a multiple of \<open>10\<^sup>-\<^sup>n\<close> that lies within half such a unit of the statistic, up
  to the representation error of doubles.
\<close>

theorem outputs_rounded:
  assumes "wf_frame df" and "\<not> empty df"
  shows "field (generate_summary_stats df fc) ''avg_quarterly_reports'' =
           Some (FloatV (round_nd (series_mean (c_y df)) 2)) \<and>
         field (generate_summary_stats df fc) ''std_quarterly_reports'' =
           Some (FloatV (round_nd (series_std (c_y df)) 2)) \<and>
         field (generate_summary_stats df fc) ''total_reports'' = Some (IntV (int64 (sum_list (c_y df)))) \<and>
         (\<forall>p. find (\<lambda>p. Max (set (c_ds df)) < f_ds p) fc = Some p \<longrightarrow>
            field (generate_summary_stats df fc) ''forecast_next_quarter'' =
              Some (FloatV (round_nd (yhat p) 1)) \<and>
            field (generate_summary_stats df fc) ''forecast_upper_bound'' =
              Some (FloatV (round_nd (yhat_upper p) 1)) \<and>
            field (generate_summary_stats df fc) ''forecast_lower_bound'' =
              Some (FloatV (round_nd (yhat_lower p) 1))) \<and>
         (\<exists>row. compare_drug_trends [(name, df)] = Returned [row] \<and>
            recent_avg_quarterly row =
              round_nd (series_mean (if 4 \<le> len df then tail 4 (c_y df) else c_y df)) 1 \<and>
            total_reports row = int64 (sum_list (c_y df)) \<and>
            peak_reports row = Max (set (c_y df))) \<and>
         (- (2 ^ 63) \<le> sum_list (c_y df) \<and> sum_list (c_y df) < 2 ^ 63 \<longrightarrow>
            int64 (sum_list (c_y df)) = sum_list (c_y df)) \<and>
         (\<forall>x n r. round_nd (Fin x) n = Fin r \<longrightarrow>
            (\<exists>k. r = real_of_int k / 10 ^ n \<and>
               \<bar>r - x\<bar> \<le> 1 / (2 * 10 ^ n) + \<bar>x\<bar> / 2 ^ 51 + 2 powi (- 1073)))"
proof -
  have s: "field (generate_summary_stats df fc) ''avg_quarterly_reports'' =
           Some (FloatV (round_nd (series_mean (c_y df)) 2)) \<and>
         field (generate_summary_stats df fc) ''std_quarterly_reports'' =
           Some (FloatV (round_nd (series_std (c_y df)) 2)) \<and>
         field (generate_summary_stats df fc) ''total_reports'' = Some (IntV (int64 (sum_list (c_y df))))"
    unfolding summary_returned [OF assms]
    by (simp add: field_def split: option.splits)
  have f: "field (generate_summary_stats df fc) ''forecast_next_quarter'' =
              Some (FloatV (round_nd (yhat p) 1)) \<and>
            field (generate_summary_stats df fc) ''forecast_upper_bound'' =
              Some (FloatV (round_nd (yhat_upper p) 1)) \<and>
            field (generate_summary_stats df fc) ''forecast_lower_bound'' =
              Some (FloatV (round_nd (yhat_lower p) 1))"
    if "find (\<lambda>p. Max (set (c_ds df)) < f_ds p) fc = Some p" for p
    unfolding summary_returned [OF assms] that
    by (simp add: field_def)
  have c: "\<exists>row. compare_drug_trends [(name, df)] = Returned [row] \<and>
            recent_avg_quarterly row =
              round_nd (series_mean (if 4 \<le> len df then tail 4 (c_y df) else c_y df)) 1 \<and>
            total_reports row = int64 (sum_list (c_y df)) \<and>
            peak_reports row = Max (set (c_y df))"
    using assms(2) by (simp add: compare_row_returned [OF assms])
  have i: "- (2 ^ 63) \<le> sum_list (c_y df) \<and> sum_list (c_y df) < 2 ^ 63 \<longrightarrow>
            int64 (sum_list (c_y df)) = sum_list (c_y df)"
    by (simp add: int64_id)
  have r: "round_nd (Fin x) n = Fin r \<longrightarrow>
            (\<exists>k. r = real_of_int k / 10 ^ n \<and>
               \<bar>r - x\<bar> \<le> 1 / (2 * 10 ^ n) + \<bar>x\<bar> / 2 ^ 51 + 2 powi (- 1073))" for x n r
    using round_nd_close [of x n r] by blast
  from s f c i r show ?thesis by blast
qed

text \<open>
  The mean of 10, 20, 5 is 35/3, and the digest holds 11.67. Forty quarters with 23
  reports in all have the mean 0.575; the double nearest to it lies below it, and the
  digest holds 0.57.
\<close>

theorem outputs_rounded_witness:
  "wf_frame series_A \<and> \<not> empty series_A \<and> wf_frame sparse \<and> \<not> empty sparse \<and>
   series_mean (c_y series_A) = Fin (35 / 3) \<and>
   field (generate_summary_stats series_A []) ''avg_quarterly_reports'' =
     Some (FloatV (Fin (1167 / 100))) \<and>
   field (generate_summary_stats series_A []) ''total_reports'' = Some (IntV 35) \<and>
   len sparse = 40 \<and> series_mean (c_y sparse) = Fin (23 / 40) \<and>
   field (generate_summary_stats sparse []) ''avg_quarterly_reports'' =
     Some (FloatV (Fin (57 / 100))) \<and>
   field (generate_summary_stats sparse []) ''total_reports'' = Some (IntV 23)"
proof -
  have w: "wf_frame series_A" "\<not> empty series_A"
    by (simp_all add: example_defs frame_defs)
  have m: "series_mean (c_y series_A) = Fin (35 / 3)"
    by (simp add: example_defs series_mean_def)
  have y: "sum_list (c_y series_A) = 35"
    by (simp add: example_defs)
  have w': "wf_frame sparse" "\<not> empty sparse" and l': "len sparse = 40"
    by (simp_all add: sparse_def series_def DataFrame_def frame_defs)
  have y': "sum_list (c_y sparse) = 23"
    by (simp add: sparse_def series_def DataFrame_def sum_list_replicate)
  have "c_y sparse \<noteq> []" "length (c_y sparse) = 40"
    by (simp_all add: sparse_def series_def DataFrame_def)
  then have m': "series_mean (c_y sparse) = Fin (23 / 40)"
    by (simp add: series_mean_def y')
  from outputs_rounded [OF w, of "[]" "''A''"] outputs_rounded [OF w', of "[]" "''B''"]
  show ?thesis
    using w w' l' by (simp add: m y m' y' round_examples int64_def)
qed

section \<open>Series too short to forecast\<close>

text \<open>
  C3, as the code has it. For a series of fewer than two points no exception is raised:
  \<^verbatim>\<open>train_prophet_model\<close> returns \<^verbatim>\<open>None\<close> without calling the fitting library, and
  \<^verbatim>\<open>generate_forecast\<close> turns \<^verbatim>\<open>None\<close> into an empty forecast. The pipeline proceeds on a
  series of one point: it returns a result with an empty forecast, no anomalies, no
  signals and a summary without the three forecast fields.
\<close>

theorem short_series_forecast_unavailable:
  assumes "wf_frame df" and "len df < 2"
  shows "train_prophet_model fit df cfg = Returned None \<and>
         generate_forecast predict None h = Returned [] \<and>
         (\<not> empty df \<longrightarrow>
            (\<exists>s. generate_summary_stats df [] = Returned s \<and>
               run_monitoring_pipeline fit predict df cfg =
                 Returned (Some \<lparr>b_forecast = [], b_anomalies = DataFrame, b_signals = DataFrame,
                   b_summary = s, b_df = df\<rparr>) \<and>
               ''forecast_next_quarter'' \<notin> fst ` set s \<and>
               ''forecast_upper_bound'' \<notin> fst ` set s \<and>
               ''forecast_lower_bound'' \<notin> fst ` set s))"
proof -
  have t: "train_prophet_model fit df cfg = Returned None"
    using assms(2) by (simp add: train_prophet_model_def)
  have g: "generate_forecast predict None h = Returned []" for h
    by (simp add: generate_forecast_def)
  have a: "detect_anomalies df t = (DataFrame, df)" for t
    using assms(2) by (simp add: detect_anomalies_def)
  have b: "detect_safety_signals df m = (DataFrame, df)" for m
    using assms(2) by (simp add: detect_safety_signals_def)
  have p: "\<exists>s. generate_summary_stats df [] = Returned s \<and>
               run_monitoring_pipeline fit predict df cfg =
                 Returned (Some \<lparr>b_forecast = [], b_anomalies = DataFrame, b_signals = DataFrame,
                   b_summary = s, b_df = df\<rparr>) \<and>
               ''forecast_next_quarter'' \<notin> fst ` set s \<and>
               ''forecast_upper_bound'' \<notin> fst ` set s \<and>
               ''forecast_lower_bound'' \<notin> fst ` set s"
    if ne: "\<not> empty df"
    using ne
    by (simp add: run_monitoring_pipeline_def t g a b summary_returned [OF assms(1) ne])
  from t g p show ?thesis by blast
qed

text \<open>The pipeline on a single quarter of 7 reports.\<close>

theorem short_series_forecast_unavailable_witness:
  "wf_frame one_quarter \<and> len one_quarter < 2 \<and> \<not> empty one_quarter \<and>
   train_prophet_model (\<lambda>c d. Returned ()) one_quarter config_ex = Returned None \<and>
   run_monitoring_pipeline (\<lambda>c d. Returned ()) (\<lambda>m h. Returned forecast_ex) one_quarter
       config_ex =
     Returned (Some \<lparr>b_forecast = [], b_anomalies = DataFrame, b_signals = DataFrame,
       b_summary =
         [(''total_reports'', IntV 7),
          (''avg_quarterly_reports'', FloatV (Fin 7)),
          (''std_quarterly_reports'', FloatV NaN),
          (''trend'', StrV ''decreasing''),
          (''recent_quarter_reports'', IntV 7),
          (''data_start'', StrV ''2023-03-31''),
          (''data_end'', StrV ''2023-03-31'')],
       b_df = one_quarter\<rparr>)"
proof -
  have w: "wf_frame one_quarter" and l: "len one_quarter < 2" and ne: "\<not> empty one_quarter"
    by (simp_all add: example_defs frame_defs)
  have s: "generate_summary_stats one_quarter [] =
      Returned
         [(''total_reports'', IntV 7),
          (''avg_quarterly_reports'', FloatV (Fin 7)),
          (''std_quarterly_reports'', FloatV NaN),
          (''trend'', StrV ''decreasing''),
          (''recent_quarter_reports'', IntV 7),
          (''data_start'', StrV ''2023-03-31''),
          (''data_end'', StrV ''2023-03-31'')]"
    by (simp add: generate_summary_stats_def example_defs frame_defs iloc_def series_mean_def
        series_std_def round_examples int64_def strftime_def digit_def)
  from short_series_forecast_unavailable [OF w l, of "\<lambda>c d. Returned ()" config_ex
      "\<lambda>m h. Returned forecast_ex" 4]
  show ?thesis
    using w l ne by (auto simp: s)
qed

text \<open>
  Training on a single quarter, and on no quarter at all, returns \<^verbatim>\<open>None\<close>; it does not
  raise \<^verbatim>\<open>InsufficientDataError\<close>.
\<close>

theorem no_insufficient_data_error_counterexample:
  "len one_quarter = 1 \<and>
   train_prophet_model (\<lambda>c d. Returned ()) one_quarter config_ex = Returned None \<and>
   train_prophet_model (\<lambda>c d. Returned ()) DataFrame config_ex = Returned None \<and>
   (Returned None :: unit option outcome) \<noteq> Raised ''InsufficientDataError''"
  by (simp add: train_prophet_model_def example_defs frame_defs)


end
